theory Spec2Isabelle
  imports Complex_Main
begin

section \<open>The bingo relay server: data model\<close>

text \<open>
  A shallow embedding of the connection/room registry, the message router, the
  disconnect handler and the rate limiter of \<^verbatim>\<open>src/server.ts\<close>, and of the message
  router of the deployment variant \<^verbatim>\<open>src/unnamed/part_000\<close>.

  JavaScript strings are modelled as \<^typ>\<open>string\<close>: one \<^typ>\<open>char\<close> stands for one
  UTF-16 code unit, so \<^const>\<open>length\<close> is the \<^verbatim>\<open>.length\<close> of the source. The code
  distinguishes only the four ASCII characters that \<^verbatim>\<open>sanitizeInput\<close> escapes.
\<close>

type_synonym jsstring = string

text \<open>
  A JavaScript number, by the exact value of the double it holds. Only the comparisons
  with the constants 1 and 90 and the truthiness test are used by the code.
\<close>

datatype jsnumber = Num rat | PlusInfinity | MinusInfinity | NotANumber

text \<open>A value as \<^verbatim>\<open>JSON.parse\<close> leaves it in a field of a message (\<^verbatim>\<open>any\<close>).\<close>

datatype jsval =
    JUndefined
  | JNull
  | JBool bool
  | JNum jsnumber
  | JStr jsstring
  | JObject "(jsstring \<times> jsval) list"
  | JArray "jsval list"

text \<open>\<^verbatim>\<open>interface WebSocketMessage { type: string; [key: string]: any }\<close>: the own
  properties of the parsed object; a property that is absent reads as \<^verbatim>\<open>undefined\<close>.
  The router is given an object, as its signature says; the fields, \<^verbatim>\<open>type\<close> included,
  may hold any value.\<close>

type_synonym message = "jsstring \<rightharpoonup> jsval"

definition property :: "message \<Rightarrow> jsstring \<Rightarrow> jsval" where
  "property m k = (case m k of None \<Rightarrow> JUndefined | Some v \<Rightarrow> v)"

text \<open>\<^verbatim>\<open>number < c\<close> and \<^verbatim>\<open>number > c\<close> for a finite constant \<open>c\<close>: every comparison
  with NaN is false.\<close>

fun js_lt :: "jsnumber \<Rightarrow> rat \<Rightarrow> bool" where
  "js_lt (Num q) c = (q < c)"
| "js_lt MinusInfinity c = True"
| "js_lt PlusInfinity c = False"
| "js_lt NotANumber c = False"

fun js_gt :: "jsnumber \<Rightarrow> rat \<Rightarrow> bool" where
  "js_gt (Num q) c = (q > c)"
| "js_gt PlusInfinity c = True"
| "js_gt MinusInfinity c = False"
| "js_gt NotANumber c = False"

text \<open>Truthiness, as \<^verbatim>\<open>||\<close>, \<^verbatim>\<open>!\<close> and \<^verbatim>\<open>if (x)\<close> test it.\<close>

fun truthy :: "jsval \<Rightarrow> bool" where
  "truthy JUndefined = False"
| "truthy JNull = False"
| "truthy (JBool b) = b"
| "truthy (JNum (Num q)) = (q \<noteq> 0)"
| "truthy (JNum NotANumber) = False"
| "truthy (JNum PlusInfinity) = True"
| "truthy (JNum MinusInfinity) = True"
| "truthy (JStr str) = (str \<noteq> [])"
| "truthy (JObject fields) = True"
| "truthy (JArray elems) = True"

text \<open>\<^verbatim>\<open>a || b\<close>\<close>

definition js_or :: "jsval \<Rightarrow> jsval \<Rightarrow> jsval" where
  "js_or a b = (if truthy a then a else b)"

text \<open>The exception a handler can raise: calling \<^verbatim>\<open>.replace\<close> on a value that has no such
  method.\<close>

datatype error = TypeError

text \<open>\<^verbatim>\<open>socket.readyState\<close>; the transport moves it, the handlers only read it.\<close>

datatype ready_state = CONNECTING | OPEN | CLOSING | CLOSED

record WebSocket =
  readyState :: ready_state

record Client =
  socket :: WebSocket
  userId :: jsstring
  name :: jsstring
  room :: jsstring
  role :: jsstring
  joinedAt :: nat
  ip :: jsstring

text \<open>\<^verbatim>\<open>interface Room\<close>. The field \<^verbatim>\<open>clients: Set<string>\<close> is kept as the list of its
  elements in insertion order, which is the order a \<^verbatim>\<open>for ... of\<close> loop visits them in;
  the fields carry the prefix \<open>r_\<close> because the global registry is called \<open>clients\<close> too.\<close>

record Room =
  r_clients :: "jsstring list"
  r_name :: jsstring
  r_createdAt :: nat

text \<open>\<^verbatim>\<open>Set.prototype.add\<close> and \<^verbatim>\<open>Set.prototype.delete\<close> on that list.\<close>

definition set_add :: "jsstring \<Rightarrow> jsstring list \<Rightarrow> jsstring list" where
  "set_add k ks = (if k \<in> set ks then ks else ks @ [k])"

definition set_delete :: "jsstring \<Rightarrow> jsstring list \<Rightarrow> jsstring list" where
  "set_delete k ks = removeAll k ks"

record RateLimit =
  count :: nat
  resetTime :: nat

text \<open>The entry of a \<^verbatim>\<open>users\<close> array, as \<^verbatim>\<open>getRoomUsers\<close> builds it.\<close>

record UserInfo =
  u_userId :: jsstring
  u_name :: jsstring
  u_role :: jsstring
  u_joinedAt :: nat

text \<open>A timestamp field: \<^verbatim>\<open>new Date().toISOString()\<close> in \<^verbatim>\<open>server.ts\<close>, \<^verbatim>\<open>Date.now()\<close> in
  the deployment variant; both of the instant given in milliseconds.\<close>

datatype timestamp = IsoString nat | Millis nat

text \<open>The frames the server sends, one constructor per object literal of the source.
  \<open>Relay\<close> is \<^verbatim>\<open>{...message, from: client.userId}\<close>.\<close>

datatype frame =
    Welcome jsstring jsstring timestamp
  | UserJoined jsstring jsstring timestamp "UserInfo list"
  | UserLeft jsstring jsstring timestamp "UserInfo list"
  | Pong nat
  | BingoNumber jsnumber jsstring timestamp
  | Winner jsstring jsstring timestamp jsval
  | Chat jsstring jsstring jsstring timestamp
  | Users "UserInfo list" timestamp
  | Error jsstring
  | Relay message

text \<open>The \<^verbatim>\<open>type\<close> field of a frame.\<close>

fun frame_type :: "frame \<Rightarrow> jsval" where
  "frame_type (Welcome txt uid ts) = JStr ''welcome''"
| "frame_type (UserJoined uid nm ts us) = JStr ''user-joined''"
| "frame_type (UserLeft uid nm ts us) = JStr ''user-left''"
| "frame_type (Pong ts) = JStr ''pong''"
| "frame_type (BingoNumber n nm ts) = JStr ''bingo-number''"
| "frame_type (Winner uid nm ts amount) = JStr ''winner''"
| "frame_type (Chat uid nm txt ts) = JStr ''chat''"
| "frame_type (Users us ts) = JStr ''users''"
| "frame_type (Error txt) = JStr ''error''"
| "frame_type (Relay m) = property m ''type''"

text \<open>
  The global state of the module: the three maps of the registry, the rate-limit
  buckets, and the log of every \<^verbatim>\<open>socket.send\<close> call in the order it was made. A send
  is logged under the \<^verbatim>\<open>userId\<close> of the client object whose socket it was made on.
\<close>

record state =
  clients :: "jsstring \<rightharpoonup> Client"
  rooms :: "jsstring \<rightharpoonup> Room"
  clientRooms :: "jsstring \<rightharpoonup> jsstring"
  rateLimits :: "jsstring \<rightharpoonup> RateLimit"
  sent :: "(jsstring \<times> frame) list"

definition init_state :: state where
  "init_state = \<lparr>clients = Map.empty, rooms = Map.empty, clientRooms = Map.empty,
     rateLimits = Map.empty, sent = []\<rparr>"

section \<open>Utility functions\<close>

text \<open>\<^verbatim>\<open>input.replace(/c/g, rep)\<close> for a one-character pattern.\<close>

definition replace_g :: "char \<Rightarrow> jsstring \<Rightarrow> jsstring \<Rightarrow> jsstring" where
  "replace_g c rep input = concat (map (\<lambda>x. if x = c then rep else [x]) input)"

text \<open>\<^verbatim>\<open>sanitizeInput\<close> of \<^verbatim>\<open>server.ts\<close>: four replacements, in the order of the source
  (\<open>CHR 0x22\<close> is the double quote, \<open>CHR 0x27\<close> the single quote).\<close>

definition sanitizeInput :: "jsstring \<Rightarrow> jsstring" where
  "sanitizeInput input =
     replace_g (CHR 0x27) ''&#x27;''
       (replace_g (CHR 0x22) ''&quot;''
         (replace_g (CHR ''>'') ''&gt;''
           (replace_g (CHR ''<'') ''&lt;'' input)))"

text \<open>\<^verbatim>\<open>sanitizeInput\<close> of the deployment variant: \<^verbatim>\<open>if (!input) return ''\<close> first.\<close>

definition sanitizeInput_deploy :: "jsstring \<Rightarrow> jsstring" where
  "sanitizeInput_deploy input =
     (if input = [] then []
      else replace_g (CHR 0x27) ''&#x27;''
        (replace_g (CHR 0x22) ''&quot;''
          (replace_g (CHR ''>'') ''&gt;''
            (replace_g (CHR ''<'') ''&lt;'' input))))"

text \<open>A call \<^verbatim>\<open>sanitizeInput(v)\<close> on a truthy value of type \<^verbatim>\<open>any\<close>: a value that is not
  a string has no \<^verbatim>\<open>replace\<close> method, and the call raises.\<close>

definition sanitize_value :: "jsval \<Rightarrow> error + jsstring" where
  "sanitize_value v = (case v of JStr str \<Rightarrow> Inr (sanitizeInput str) | _ \<Rightarrow> Inl TypeError)"

definition sanitize_value_deploy :: "jsval \<Rightarrow> error + jsstring" where
  "sanitize_value_deploy v =
     (case v of JStr str \<Rightarrow> Inr (sanitizeInput_deploy str) | _ \<Rightarrow> Inl TypeError)"

text \<open>\<^verbatim>\<open>isRateLimited(ip)\<close>, with the value of \<^verbatim>\<open>Date.now()\<close> as the argument \<open>now\<close>. The
  result is the returned flag and the state with the bucket map as the call leaves it.\<close>

definition isRateLimited :: "jsstring \<Rightarrow> nat \<Rightarrow> state \<Rightarrow> bool \<times> state" where
  "isRateLimited addr now s =
     (case rateLimits s addr of
        None \<Rightarrow>
          (False, s\<lparr>rateLimits := (rateLimits s)(addr \<mapsto> \<lparr>count = 1, resetTime = now + 60000\<rparr>)\<rparr>)
      | Some limit \<Rightarrow>
          if now > resetTime limit then
            (False, s\<lparr>rateLimits := (rateLimits s)(addr \<mapsto> \<lparr>count = 1, resetTime = now + 60000\<rparr>)\<rparr>)
          else if count limit \<ge> 100 then (True, s)
          else (False, s\<lparr>rateLimits := (rateLimits s)(addr \<mapsto> limit\<lparr>count := count limit + 1\<rparr>)\<rparr>))"

text \<open>A run of \<^verbatim>\<open>isRateLimited\<close> calls for one origin, at the given instants: the flags
  returned, in order, and the final state.\<close>

fun rate_calls :: "jsstring \<Rightarrow> nat list \<Rightarrow> state \<Rightarrow> bool list \<times> state" where
  "rate_calls addr [] s = ([], s)"
| "rate_calls addr (now # nows) s =
     (case isRateLimited addr now s of
        (limited, s') \<Rightarrow> (case rate_calls addr nows s' of (flags, s'') \<Rightarrow> (limited # flags, s'')))"

section \<open>Sending\<close>

text \<open>\<^verbatim>\<open>client.socket.send(JSON.stringify(message))\<close>\<close>

definition socket_send :: "Client \<Rightarrow> frame \<Rightarrow> state \<Rightarrow> state" where
  "socket_send client msg s = s\<lparr>sent := sent s @ [(userId client, msg)]\<rparr>"

text \<open>The loop of \<^verbatim>\<open>broadcastToRoom\<close> over the member set. A send that throws is caught
  inside the loop and the loop goes on, so the log records the call either way.\<close>

fun broadcast_loop :: "jsstring list \<Rightarrow> jsstring option \<Rightarrow> frame \<Rightarrow> state \<Rightarrow> state" where
  "broadcast_loop [] excludeClientId msg s = s"
| "broadcast_loop (clientId # rest) excludeClientId msg s =
     (if Some clientId = excludeClientId then broadcast_loop rest excludeClientId msg s
      else
        (case clients s clientId of
           None \<Rightarrow> broadcast_loop rest excludeClientId msg s
         | Some client \<Rightarrow>
             if readyState (socket client) = OPEN
             then broadcast_loop rest excludeClientId msg (socket_send client msg s)
             else broadcast_loop rest excludeClientId msg s))"

text \<open>\<^verbatim>\<open>broadcastToRoom(room, excludeClientId, message)\<close>; the deployment variant differs
  only in serialising the message once, before the loop.\<close>

definition broadcastToRoom :: "jsstring \<Rightarrow> jsstring option \<Rightarrow> frame \<Rightarrow> state \<Rightarrow> state" where
  "broadcastToRoom rm excludeClientId msg s =
     (case rooms s rm of
        None \<Rightarrow> s
      | Some roomObj \<Rightarrow> broadcast_loop (r_clients roomObj) excludeClientId msg s)"

text \<open>The loop of \<^verbatim>\<open>getRoomUsers\<close>.\<close>

fun users_loop :: "jsstring list \<Rightarrow> state \<Rightarrow> UserInfo list" where
  "users_loop [] s = []"
| "users_loop (clientId # rest) s =
     (case clients s clientId of
        None \<Rightarrow> users_loop rest s
      | Some client \<Rightarrow>
          \<lparr>u_userId = userId client, u_name = name client, u_role = role client,
            u_joinedAt = joinedAt client\<rparr> # users_loop rest s)"

definition getRoomUsers :: "jsstring \<Rightarrow> state \<Rightarrow> UserInfo list" where
  "getRoomUsers rm s =
     (case rooms s rm of None \<Rightarrow> [] | Some roomObj \<Rightarrow> users_loop (r_clients roomObj) s)"

section \<open>Connecting and disconnecting\<close>

text \<open>What \<^verbatim>\<open>handleWebSocket\<close> reads of the request: the three query parameters
  (\<^verbatim>\<open>params.get\<close> gives \<^verbatim>\<open>null\<close> for a missing one) and the origin address.\<close>

record request =
  q_name :: "jsstring option"
  q_room :: "jsstring option"
  q_role :: "jsstring option"
  q_ip :: jsstring

text \<open>\<^verbatim>\<open>params.get(k) || dflt\<close>: \<^verbatim>\<open>null\<close> and the empty string are falsy.\<close>

definition param_or :: "jsstring option \<Rightarrow> jsstring \<Rightarrow> jsstring" where
  "param_or p dflt = (case p of None \<Rightarrow> dflt | Some v \<Rightarrow> if v = [] then dflt else v)"

text \<open>
  \<^verbatim>\<open>handleWebSocket(req, clientId)\<close> up to the installation of the event handlers: the
  client object is stored, the room is created when the directory has none of that name,
  and the id is added to the room's set and to \<^verbatim>\<open>clientRooms\<close>. The socket that
  \<^verbatim>\<open>Deno.upgradeWebSocket\<close> returns is not open yet. \<open>now\<close> is the instant of the two
  \<^verbatim>\<open>new Date()\<close>.
\<close>

definition handleWebSocket :: "request \<Rightarrow> jsstring \<Rightarrow> nat \<Rightarrow> state \<Rightarrow> state" where
  "handleWebSocket req clientId now s =
     (let nm = sanitizeInput (param_or (q_name req) ''Anonymous'');
          rm = sanitizeInput (param_or (q_room req) ''bingo_main'');
          rl = sanitizeInput (param_or (q_role req) ''player'');
          client = \<lparr>socket = \<lparr>readyState = CONNECTING\<rparr>, userId = clientId, name = nm,
                     room = rm, role = rl, joinedAt = now, ip = q_ip req\<rparr>;
          roomObj = (case rooms s rm of
                       None \<Rightarrow> \<lparr>r_clients = [], r_name = rm, r_createdAt = now\<rparr>
                     | Some existing \<Rightarrow> existing)
      in s\<lparr>clients := (clients s)(clientId \<mapsto> client),
            rooms := (rooms s)(rm \<mapsto> roomObj\<lparr>r_clients := set_add clientId (r_clients roomObj)\<rparr>),
            clientRooms := (clientRooms s)(clientId \<mapsto> rm)\<rparr>)"

text \<open>\<^verbatim>\<open>handleClientDisconnect(clientId)\<close>: the room loses the id and is deleted when its
  set is empty, the client leaves both maps, and the room is told, with the user list
  read after the removal.\<close>

definition handleClientDisconnect :: "jsstring \<Rightarrow> nat \<Rightarrow> state \<Rightarrow> state" where
  "handleClientDisconnect clientId now s =
     (case clients s clientId of
        None \<Rightarrow> s
      | Some client \<Rightarrow>
          (let rm = room client;
               s1 = (case rooms s rm of
                       None \<Rightarrow> s
                     | Some roomObj \<Rightarrow>
                         (let left = set_delete clientId (r_clients roomObj) in
                          if length left = 0 then s\<lparr>rooms := (rooms s)(rm := None)\<rparr>
                          else s\<lparr>rooms := (rooms s)(rm \<mapsto> roomObj\<lparr>r_clients := left\<rparr>)\<rparr>));
               s2 = s1\<lparr>clients := (clients s1)(clientId := None)\<rparr>;
               s3 = s2\<lparr>clientRooms := (clientRooms s2)(clientId := None)\<rparr>
           in broadcastToRoom rm None
                (UserLeft clientId (name client) (IsoString now) (getRoomUsers rm s3)) s3))"

text \<open>
  The socket of a connection opens: the transport sets \<^verbatim>\<open>readyState\<close> to \<^verbatim>\<open>OPEN\<close> and calls
  \<^verbatim>\<open>socket.onopen\<close>, which greets the connection and tells the others in the room. The
  handler's closure holds the name and the room that the registry entry holds; an entry
  is removed only once the socket has closed, so the event finds it.
\<close>

definition onopen :: "jsstring \<Rightarrow> nat \<Rightarrow> state \<Rightarrow> state" where
  "onopen clientId now s =
     (case clients s clientId of
        None \<Rightarrow> s
      | Some client \<Rightarrow>
          (let opened = client\<lparr>socket := \<lparr>readyState = OPEN\<rparr>\<rparr>;
               s1 = s\<lparr>clients := (clients s)(clientId \<mapsto> opened)\<rparr>;
               s2 = socket_send opened
                      (Welcome (''Welcome to '' @ room client @ ''!'') clientId (IsoString now)) s1
           in broadcastToRoom (room client) (Some clientId)
                (UserJoined clientId (name client) (IsoString now) (getRoomUsers (room client) s2))
                s2))"

text \<open>A connection-join or a connection-leave, and a sequence of them.\<close>

datatype operation = Join request jsstring nat | Leave jsstring nat

fun step :: "operation \<Rightarrow> state \<Rightarrow> state" where
  "step (Join req clientId now) s = handleWebSocket req clientId now s"
| "step (Leave clientId now) s = handleClientDisconnect clientId now s"

fun run :: "operation list \<Rightarrow> state \<Rightarrow> state" where
  "run [] s = s"
| "run (operation # operations) s = run operations (step operation s)"


section \<open>The message router of server.ts\<close>

definition handleBingoNumber :: "Client \<Rightarrow> message \<Rightarrow> nat \<Rightarrow> state \<Rightarrow> state" where
  "handleBingoNumber client m now s =
     (case property m ''number'' of
        JNum n \<Rightarrow>
          if js_lt n 1 \<or> js_gt n 90
          then socket_send client (Error ''Invalid bingo number'') s
          else broadcastToRoom (room client) (Some (userId client))
                 (BingoNumber n (name client) (IsoString now)) s
      | _ \<Rightarrow> socket_send client (Error ''Invalid bingo number'') s)"

definition handleWinner :: "Client \<Rightarrow> message \<Rightarrow> nat \<Rightarrow> state \<Rightarrow> state" where
  "handleWinner client m now s =
     broadcastToRoom (room client) None
       (Winner (userId client) (name client) (IsoString now)
          (js_or (property m ''winAmount'') (JNum (Num 0)))) s"

text \<open>\<^verbatim>\<open>clients.get(target)\<close> finds an entry only for a string: the keys of the map are
  strings.\<close>

definition handleRTCSignaling :: "Client \<Rightarrow> message \<Rightarrow> state \<Rightarrow> state" where
  "handleRTCSignaling client m s =
     (let target = property m ''target'' in
      if target = JStr ''broadcast''
      then broadcastToRoom (room client) (Some (userId client))
             (Relay (m(''from'' \<mapsto> JStr (userId client)))) s
      else if truthy target then
        (case target of
           JStr targetId \<Rightarrow>
             (case clients s targetId of
                None \<Rightarrow> s
              | Some targetClient \<Rightarrow>
                  if room targetClient = room client
                  then socket_send targetClient (Relay (m(''from'' \<mapsto> JStr (userId client)))) s
                  else s)
         | _ \<Rightarrow> s)
      else s)"

definition handleChatMessage :: "Client \<Rightarrow> message \<Rightarrow> nat \<Rightarrow> state \<Rightarrow> error + state" where
  "handleChatMessage client m now s =
     (case sanitize_value (js_or (property m ''message'') (JStr [])) of
        Inl e \<Rightarrow> Inl e
      | Inr chatMessage \<Rightarrow>
          if length chatMessage > 500
          then Inr (socket_send client (Error ''Message too long'') s)
          else Inr (broadcastToRoom (room client) None
                 (Chat (userId client) (name client) chatMessage (IsoString now)) s))"

definition sendRoomUsers :: "Client \<Rightarrow> nat \<Rightarrow> state \<Rightarrow> state" where
  "sendRoomUsers client now s =
     socket_send client (Users (getRoomUsers (room client) s) (IsoString now)) s"

text \<open>\<^verbatim>\<open>handleWebSocketMessage(clientId, message)\<close>: the \<^verbatim>\<open>switch\<close> on \<^verbatim>\<open>message.type\<close>
  compares with \<^verbatim>\<open>===\<close>, so only a string selects a case.\<close>

definition handleWebSocketMessage ::
  "jsstring \<Rightarrow> message \<Rightarrow> nat \<Rightarrow> state \<Rightarrow> error + state" where
  "handleWebSocketMessage clientId m now s =
     (case clients s clientId of
        None \<Rightarrow> Inr s
      | Some client \<Rightarrow>
          (let ty = property m ''type'' in
           if ty = JStr ''ping'' then Inr (socket_send client (Pong now) s)
           else if ty = JStr ''join'' then Inr s
           else if ty = JStr ''bingo-number'' then Inr (handleBingoNumber client m now s)
           else if ty = JStr ''winner'' then Inr (handleWinner client m now s)
           else if ty = JStr ''offer'' \<or> ty = JStr ''answer'' \<or> ty = JStr ''ice-candidate''
             then Inr (handleRTCSignaling client m s)
           else if ty = JStr ''chat'' then handleChatMessage client m now s
           else if ty = JStr ''get-users'' then Inr (sendRoomUsers client now s)
           else Inr s))"

section \<open>The message router of the deployment variant\<close>

text \<open>The handlers of \<^verbatim>\<open>src/unnamed/part_000\<close>. They stamp frames with \<^verbatim>\<open>Date.now()\<close>, the
  number error has another text, and the \<^verbatim>\<open>switch\<close> has no \<^verbatim>\<open>"join"\<close> case.
  \<^verbatim>\<open>handleRTCSignaling\<close>, \<^verbatim>\<open>broadcastToRoom\<close> and \<^verbatim>\<open>getRoomUsers\<close> read the same in both
  files.\<close>

definition handleBingoNumber_deploy :: "Client \<Rightarrow> message \<Rightarrow> nat \<Rightarrow> state \<Rightarrow> state" where
  "handleBingoNumber_deploy client m now s =
     (case property m ''number'' of
        JNum n \<Rightarrow>
          if js_lt n 1 \<or> js_gt n 90
          then socket_send client (Error ''Invalid bingo number (1-90)'') s
          else broadcastToRoom (room client) (Some (userId client))
                 (BingoNumber n (name client) (Millis now)) s
      | _ \<Rightarrow> socket_send client (Error ''Invalid bingo number (1-90)'') s)"

definition handleWinner_deploy :: "Client \<Rightarrow> message \<Rightarrow> nat \<Rightarrow> state \<Rightarrow> state" where
  "handleWinner_deploy client m now s =
     broadcastToRoom (room client) None
       (Winner (userId client) (name client) (Millis now)
          (js_or (property m ''winAmount'') (JNum (Num 0)))) s"

definition handleChatMessage_deploy ::
  "Client \<Rightarrow> message \<Rightarrow> nat \<Rightarrow> state \<Rightarrow> error + state" where
  "handleChatMessage_deploy client m now s =
     (case sanitize_value_deploy (js_or (property m ''message'') (JStr [])) of
        Inl e \<Rightarrow> Inl e
      | Inr chatMessage \<Rightarrow>
          if length chatMessage > 500
          then Inr (socket_send client (Error ''Message too long'') s)
          else Inr (broadcastToRoom (room client) None
                 (Chat (userId client) (name client) chatMessage (Millis now)) s))"

definition sendRoomUsers_deploy :: "Client \<Rightarrow> nat \<Rightarrow> state \<Rightarrow> state" where
  "sendRoomUsers_deploy client now s =
     socket_send client (Users (getRoomUsers (room client) s) (Millis now)) s"

definition handleWebSocketMessage_deploy ::
  "jsstring \<Rightarrow> message \<Rightarrow> nat \<Rightarrow> state \<Rightarrow> error + state" where
  "handleWebSocketMessage_deploy clientId m now s =
     (case clients s clientId of
        None \<Rightarrow> Inr s
      | Some client \<Rightarrow>
          (let ty = property m ''type'' in
           if ty = JStr ''ping'' then Inr (socket_send client (Pong now) s)
           else if ty = JStr ''bingo-number'' then Inr (handleBingoNumber_deploy client m now s)
           else if ty = JStr ''winner'' then Inr (handleWinner_deploy client m now s)
           else if ty = JStr ''offer'' \<or> ty = JStr ''answer'' \<or> ty = JStr ''ice-candidate''
             then Inr (handleRTCSignaling client m s)
           else if ty = JStr ''chat'' then handleChatMessage_deploy client m now s
           else if ty = JStr ''get-users'' then Inr (sendRoomUsers_deploy client now s)
           else Inr s))"

section \<open>Observations and invariants\<close>

text \<open>The characters that \<^verbatim>\<open>sanitizeInput\<close> escapes.\<close>

definition specials :: "char set" where
  "specials = {CHR ''<'', CHR ''>'', CHR 0x22, CHR 0x27}"

text \<open>The member ids of a room, in the order of its set; none for a room that the
  directory does not hold.\<close>

definition members :: "jsstring \<Rightarrow> state \<Rightarrow> jsstring list" where
  "members rm s = (case rooms s rm of None \<Rightarrow> [] | Some roomObj \<Rightarrow> r_clients roomObj)"

text \<open>The connection is registered and its socket is in the state \<^verbatim>\<open>WebSocket.OPEN\<close>.\<close>

definition is_open :: "state \<Rightarrow> jsstring \<Rightarrow> bool" where
  "is_open s k = (case clients s k of None \<Rightarrow> False | Some c \<Rightarrow> readyState (socket c) = OPEN)"

text \<open>What the representation owes to the source: a client object is stored under its
  own \<^verbatim>\<open>userId\<close>, and a member set holds an id once.\<close>

definition well_formed :: "state \<Rightarrow> bool" where
  "well_formed s \<longleftrightarrow>
     (\<forall>k c. clients s k = Some c \<longrightarrow> userId c = k) \<and>
     (\<forall>rm roomObj. rooms s rm = Some roomObj \<longrightarrow> distinct (r_clients roomObj))"

text \<open>The registry and the directory agree, in both directions.\<close>

definition consistent :: "state \<Rightarrow> bool" where
  "consistent s \<longleftrightarrow>
     (\<forall>rm k. k \<in> set (members rm s) \<longrightarrow> (\<exists>c. clients s k = Some c \<and> room c = rm)) \<and>
     (\<forall>k c. clients s k = Some c \<longrightarrow> k \<in> set (members (room c) s))"

text \<open>A room is in the directory exactly when it has a member.\<close>

definition no_empty_rooms :: "state \<Rightarrow> bool" where
  "no_empty_rooms s \<longleftrightarrow> (\<forall>rm. (rooms s rm \<noteq> None) = (members rm s \<noteq> []))"

text \<open>Every stored name and room name is a fixed point of \<^verbatim>\<open>sanitizeInput\<close>.\<close>

definition names_sanitized :: "state \<Rightarrow> bool" where
  "names_sanitized s \<longleftrightarrow>
     (\<forall>k c. clients s k = Some c \<longrightarrow>
        sanitizeInput (name c) = name c \<and> sanitizeInput (room c) = room c) \<and>
     (\<forall>rm roomObj. rooms s rm = Some roomObj \<longrightarrow>
        sanitizeInput rm = rm \<and> r_name roomObj = rm)"

text \<open>No bucket counts more than the ceiling of 100.\<close>

definition counts_bounded :: "state \<Rightarrow> bool" where
  "counts_bounded s \<longleftrightarrow> (\<forall>addr limit. rateLimits s addr = Some limit \<longrightarrow> count limit \<le> 100)"

text \<open>The origin has no bucket at the instant \<open>now\<close>, or one whose window is over.\<close>

definition window_over :: "state \<Rightarrow> jsstring \<Rightarrow> nat \<Rightarrow> bool" where
  "window_over s addr now =
     (case rateLimits s addr of None \<Rightarrow> True | Some limit \<Rightarrow> now > resetTime limit)"

text \<open>The sends a handler added to the log.\<close>

definition new_sends :: "state \<Rightarrow> state \<Rightarrow> (jsstring \<times> frame) list" where
  "new_sends s s' = drop (length (sent s)) (sent s')"

text \<open>What a recipient can tell the two routers apart by, once timestamps and error
  texts are set aside: who was sent a frame of which type, in order.\<close>

definition typed_sends :: "state \<Rightarrow> (jsstring \<times> jsval) list" where
  "typed_sends s = map (\<lambda>(k, f). (k, frame_type f)) (sent s)"

text \<open>The outcome of a router call as a peer can observe it: the exception, or the typed
  sends.\<close>

definition observe :: "error + state \<Rightarrow> error + (jsstring \<times> jsval) list" where
  "observe r = map_sum id typed_sends r"

text \<open>The room a request joins.\<close>

definition join_room :: "request \<Rightarrow> jsstring" where
  "join_room req = sanitizeInput (param_or (q_room req) ''bingo_main'')"

section \<open>Example connections and states\<close>

definition alice :: Client where
  "alice = \<lparr>socket = \<lparr>readyState = OPEN\<rparr>, userId = ''A'', name = ''Alice'', room = ''r1'',
     role = ''player'', joinedAt = 0, ip = ''10.0.0.1''\<rparr>"

definition bob :: Client where
  "bob = \<lparr>socket = \<lparr>readyState = OPEN\<rparr>, userId = ''B'', name = ''Bob'', room = ''r1'',
     role = ''player'', joinedAt = 1, ip = ''10.0.0.2''\<rparr>"

definition carol :: Client where
  "carol = \<lparr>socket = \<lparr>readyState = OPEN\<rparr>, userId = ''C'', name = ''Carol'', room = ''r2'',
     role = ''spectator'', joinedAt = 2, ip = ''10.0.0.3''\<rparr>"

text \<open>A and B are in room r1 and C is in room r2; \<open>b\<close> is the client object stored for B.\<close>

definition three_clients :: "Client \<Rightarrow> state" where
  "three_clients b =
     \<lparr>clients = [''A'' \<mapsto> alice, ''B'' \<mapsto> b, ''C'' \<mapsto> carol],
      rooms = [''r1'' \<mapsto> \<lparr>r_clients = [''A'', ''B''], r_name = ''r1'', r_createdAt = 0\<rparr>,
               ''r2'' \<mapsto> \<lparr>r_clients = [''C''], r_name = ''r2'', r_createdAt = 2\<rparr>],
      clientRooms = [''A'' \<mapsto> ''r1'', ''B'' \<mapsto> ''r1'', ''C'' \<mapsto> ''r2''],
      rateLimits = Map.empty, sent = []\<rparr>"

text \<open>A request with the given name and room, and no role.\<close>

definition request_of :: "jsstring \<Rightarrow> jsstring \<Rightarrow> request" where
  "request_of nm rm = \<lparr>q_name = Some nm, q_room = Some rm, q_role = None, q_ip = ''10.0.0.9''\<rparr>"

text \<open>The client object that a join of Alice to room r1 at instant 0 stores.\<close>

definition alice_joining :: Client where
  "alice_joining = \<lparr>socket = \<lparr>readyState = CONNECTING\<rparr>, userId = ''A'', name = ''Alice'',
     room = ''r1'', role = ''player'', joinedAt = 0, ip = ''10.0.0.9''\<rparr>"

text \<open>Alice has joined room r1 and her socket has opened; Bob has joined the same room and
  his socket has not opened yet.\<close>

definition bob_not_open_yet :: state where
  "bob_not_open_yet =
     handleWebSocket (request_of ''Bob'' ''r1'') ''B'' 1
       (onopen ''A'' 0 (handleWebSocket (request_of ''Alice'' ''r1'') ''A'' 0 init_state))"

text \<open>Example events.\<close>

definition bingo_event :: "jsval \<Rightarrow> message" where
  "bingo_event v = [''type'' \<mapsto> JStr ''bingo-number'', ''number'' \<mapsto> v]"

definition chat_event :: "jsval \<Rightarrow> message" where
  "chat_event v = [''type'' \<mapsto> JStr ''chat'', ''message'' \<mapsto> v]"


section \<open>Properties of the utility functions\<close>

lemma replace_g_Nil [simp]: "replace_g c rep [] = []"
  by (simp add: replace_g_def)

lemma replace_g_Cons [simp]:
  "replace_g c rep (x # xs) = (if x = c then rep else [x]) @ replace_g c rep xs"
  by (simp add: replace_g_def)

lemma replace_g_append [simp]:
  "replace_g c rep (xs @ ys) = replace_g c rep xs @ replace_g c rep ys"
  by (simp add: replace_g_def)

lemma replace_g_absent: "c \<notin> set xs \<Longrightarrow> replace_g c rep xs = xs"
  by (induction xs) auto

lemma set_replace_g: "set (replace_g c rep xs) \<subseteq> (set xs - {c}) \<union> set rep"
  by (induction xs) auto

lemma length_replace_g: "rep \<noteq> [] \<Longrightarrow> length xs \<le> length (replace_g c rep xs)"
proof (induction xs)
  case Nil
  then show ?case by simp
next
  case (Cons x xs)
  then have "1 \<le> length rep" by (cases rep) auto
  with Cons show ?case by auto
qed

lemma sanitizeInput_clean: "set (sanitizeInput str) \<inter> specials = {}"
proof -
  let ?a = "replace_g (CHR ''<'') ''&lt;'' str"
  let ?b = "replace_g (CHR ''>'') ''&gt;'' ?a"
  let ?c = "replace_g (CHR 0x22) ''&quot;'' ?b"
  let ?d = "replace_g (CHR 0x27) ''&#x27;'' ?c"
  have a: "CHR ''<'' \<notin> set ?a"
    using set_replace_g [of "CHR ''<''" "''&lt;''" str] by auto
  have b: "CHR ''<'' \<notin> set ?b" "CHR ''>'' \<notin> set ?b"
    using a set_replace_g [of "CHR ''>''" "''&gt;''" ?a] by auto
  have c: "CHR ''<'' \<notin> set ?c" "CHR ''>'' \<notin> set ?c" "CHR 0x22 \<notin> set ?c"
    using b set_replace_g [of "CHR 0x22" "''&quot;''" ?b] by auto
  have d: "CHR ''<'' \<notin> set ?d" "CHR ''>'' \<notin> set ?d" "CHR 0x22 \<notin> set ?d" "CHR 0x27 \<notin> set ?d"
    using c set_replace_g [of "CHR 0x27" "''&#x27;''" ?c] by auto
  then show ?thesis
    by (simp add: sanitizeInput_def specials_def)
qed

lemma sanitizeInput_fixed: "set str \<inter> specials = {} \<Longrightarrow> sanitizeInput str = str"
  by (simp add: sanitizeInput_def specials_def replace_g_absent)

lemma sanitizeInput_idem: "sanitizeInput (sanitizeInput str) = sanitizeInput str"
  by (rule sanitizeInput_fixed) (rule sanitizeInput_clean)

lemma sanitizeInput_deploy_eq: "sanitizeInput_deploy str = sanitizeInput str"
  by (simp add: sanitizeInput_deploy_def sanitizeInput_def)

lemma length_sanitizeInput: "length str \<le> length (sanitizeInput str)"
proof -
  have "length str \<le> length (replace_g (CHR ''<'') ''&lt;'' str)"
    by (rule length_replace_g) simp
  also have "\<dots> \<le> length (replace_g (CHR ''>'') ''&gt;'' (replace_g (CHR ''<'') ''&lt;'' str))"
    by (rule length_replace_g) simp
  also have "\<dots> \<le> length (replace_g (CHR 0x22) ''&quot;'' (replace_g (CHR ''>'') ''&gt;'' (replace_g (CHR ''<'') ''&lt;'' str)))"
    by (rule length_replace_g) simp
  also have "\<dots> \<le> length (sanitizeInput str)"
    unfolding sanitizeInput_def by (rule length_replace_g) simp
  finally show ?thesis .
qed

lemma sanitizeInput_replicate_lt:
  "sanitizeInput (replicate n (CHR ''<'')) = concat (replicate n ''&lt;'')"
  by (induction n) (simp_all add: sanitizeInput_def)

section \<open>Properties of sending\<close>

lemma clients_socket_send [simp]: "clients (socket_send c f s) = clients s"
  and rooms_socket_send [simp]: "rooms (socket_send c f s) = rooms s"
  and clientRooms_socket_send [simp]: "clientRooms (socket_send c f s) = clientRooms s"
  and rateLimits_socket_send [simp]: "rateLimits (socket_send c f s) = rateLimits s"
  and sent_socket_send [simp]: "sent (socket_send c f s) = sent s @ [(userId c, f)]"
  by (simp_all add: socket_send_def)

lemma is_open_socket_send [simp]: "is_open (socket_send c f s) k = is_open s k"
  by (simp add: is_open_def)

lemma well_formed_socket_send [simp]: "well_formed (socket_send c f s) = well_formed s"
  by (simp add: well_formed_def)

text \<open>The loop appends one send per visited id that is not excluded and is open.\<close>

lemma broadcast_loop_appends:
  "\<exists>ks. broadcast_loop ids ex f s = s\<lparr>sent := sent s @ map (\<lambda>k. (k, f)) ks\<rparr>"
proof (induction ids arbitrary: s)
  case Nil
  have "broadcast_loop [] ex f s = s\<lparr>sent := sent s @ map (\<lambda>k. (k, f)) []\<rparr>" by simp
  then show ?case by blast
next
  case (Cons k ids)
  show ?case
  proof (cases "Some k \<noteq> ex \<and> (\<exists>c. clients s k = Some c \<and> readyState (socket c) = OPEN)")
    case True
    then obtain c where c: "clients s k = Some c" "readyState (socket c) = OPEN" by blast
    from Cons [of "socket_send c f s"] obtain ks where
      "broadcast_loop ids ex f (socket_send c f s) =
         (socket_send c f s)\<lparr>sent := sent (socket_send c f s) @ map (\<lambda>k. (k, f)) ks\<rparr>" by blast
    then have "broadcast_loop (k # ids) ex f s = s\<lparr>sent := sent s @ map (\<lambda>k. (k, f)) (userId c # ks)\<rparr>"
      using True c by (simp add: socket_send_def)
    then show ?thesis by blast
  next
    case False
    then have "broadcast_loop (k # ids) ex f s = broadcast_loop ids ex f s"
      by (auto split: option.splits)
    with Cons [of s] show ?thesis by simp
  qed
qed

lemma broadcast_loop_eq:
  "well_formed s \<Longrightarrow>
   broadcast_loop ids ex f s =
     s\<lparr>sent := sent s @ map (\<lambda>k. (k, f)) (filter (\<lambda>k. Some k \<noteq> ex \<and> is_open s k) ids)\<rparr>"
proof (induction ids arbitrary: s)
  case Nil
  then show ?case by simp
next
  case (Cons k ids)
  show ?case
  proof (cases "Some k \<noteq> ex \<and> is_open s k")
    case True
    then obtain c where c: "clients s k = Some c" "readyState (socket c) = OPEN"
      by (auto simp: is_open_def split: option.splits)
    with Cons.prems have uid: "userId c = k" by (simp add: well_formed_def)
    have "broadcast_loop (k # ids) ex f s = broadcast_loop ids ex f (socket_send c f s)"
      using True c by simp
    also have "\<dots> = (socket_send c f s)\<lparr>sent := sent (socket_send c f s) @
         map (\<lambda>k. (k, f)) (filter (\<lambda>k. Some k \<noteq> ex \<and> is_open (socket_send c f s) k) ids)\<rparr>"
      using Cons.prems by (intro Cons.IH) simp
    also have "\<dots> = s\<lparr>sent := sent s @ map (\<lambda>k. (k, f)) (filter (\<lambda>k. Some k \<noteq> ex \<and> is_open s k) (k # ids))\<rparr>"
      using True uid by (simp add: socket_send_def is_open_def)
    finally show ?thesis .
  next
    case False
    then have "broadcast_loop (k # ids) ex f s = broadcast_loop ids ex f s"
      by (auto simp: is_open_def split: option.splits)
    with Cons False show ?thesis by auto
  qed
qed

lemma broadcastToRoom_eq:
  "well_formed s \<Longrightarrow>
   broadcastToRoom rm ex f s =
     s\<lparr>sent := sent s @ map (\<lambda>k. (k, f)) (filter (\<lambda>k. Some k \<noteq> ex \<and> is_open s k) (members rm s))\<rparr>"
  by (simp add: broadcastToRoom_def members_def broadcast_loop_eq split: option.splits)

lemma broadcastToRoom_appends:
  "\<exists>ks. broadcastToRoom rm ex f s = s\<lparr>sent := sent s @ map (\<lambda>k. (k, f)) ks\<rparr>"
proof (cases "rooms s rm")
  case None
  then have "broadcastToRoom rm ex f s = s\<lparr>sent := sent s @ map (\<lambda>k. (k, f)) []\<rparr>"
    by (simp add: broadcastToRoom_def)
  then show ?thesis by blast
next
  case (Some roomObj)
  then show ?thesis using broadcast_loop_appends by (simp add: broadcastToRoom_def)
qed

lemma distinct_members: "well_formed s \<Longrightarrow> distinct (members rm s)"
  by (auto simp: well_formed_def members_def split: option.splits)

section \<open>The registry after a join and after a disconnect\<close>

lemma set_set_add [simp]: "set (set_add k ks) = insert k (set ks)"
  by (auto simp: set_add_def)

lemma distinct_set_add [simp]: "distinct (set_add k ks) = distinct ks"
  by (auto simp: set_add_def)

lemma set_add_not_Nil [simp]: "set_add k ks \<noteq> []"
  by (auto simp: set_add_def)

lemma set_set_delete [simp]: "set (set_delete k ks) = set ks - {k}"
  by (auto simp: set_delete_def)

lemma distinct_set_delete [simp]: "distinct ks \<Longrightarrow> distinct (set_delete k ks)"
  by (simp add: set_delete_def distinct_removeAll)

text \<open>The state after a join, field by field.\<close>

lemma clients_handleWebSocket:
  "clients (handleWebSocket req k now s) =
     (clients s)(k \<mapsto> \<lparr>socket = \<lparr>readyState = CONNECTING\<rparr>, userId = k,
        name = sanitizeInput (param_or (q_name req) ''Anonymous''), room = join_room req,
        role = sanitizeInput (param_or (q_role req) ''player''), joinedAt = now, ip = q_ip req\<rparr>)"
  by (simp add: handleWebSocket_def Let_def join_room_def)

lemma members_handleWebSocket:
  "members rm (handleWebSocket req k now s) =
     (if rm = join_room req then set_add k (members rm s) else members rm s)"
  by (simp add: handleWebSocket_def Let_def join_room_def members_def split: option.splits)

lemma rooms_handleWebSocket_other:
  "rm \<noteq> join_room req \<Longrightarrow> rooms (handleWebSocket req k now s) rm = rooms s rm"
  by (simp add: handleWebSocket_def Let_def join_room_def)

lemma rooms_handleWebSocket_joined:
  "\<exists>roomObj. rooms (handleWebSocket req k now s) (join_room req) = Some roomObj \<and>
     r_name roomObj = (case rooms s (join_room req) of None \<Rightarrow> join_room req | Some old \<Rightarrow> r_name old)"
  by (simp add: handleWebSocket_def Let_def join_room_def split: option.splits)

lemma sent_handleWebSocket [simp]: "sent (handleWebSocket req k now s) = sent s"
  and rateLimits_handleWebSocket [simp]:
    "rateLimits (handleWebSocket req k now s) = rateLimits s"
  by (simp_all add: handleWebSocket_def Let_def)

text \<open>The state after a disconnect, field by field.\<close>

lemma sent_update_fields [simp]:
  "clients (s\<lparr>sent := x\<rparr>) = clients s" "rooms (s\<lparr>sent := x\<rparr>) = rooms s"
  by simp_all

lemma members_sent_update [simp]: "members rm (s\<lparr>sent := x\<rparr>) = members rm s"
  by (simp add: members_def)

lemma broadcastToRoom_fields [simp]:
  "clients (broadcastToRoom rm ex f s) = clients s"
  "rooms (broadcastToRoom rm ex f s) = rooms s"
  "clientRooms (broadcastToRoom rm ex f s) = clientRooms s"
  "rateLimits (broadcastToRoom rm ex f s) = rateLimits s"
proof -
  obtain ks where "broadcastToRoom rm ex f s = s\<lparr>sent := sent s @ map (\<lambda>k. (k, f)) ks\<rparr>"
    using broadcastToRoom_appends by blast
  then show "clients (broadcastToRoom rm ex f s) = clients s"
    "rooms (broadcastToRoom rm ex f s) = rooms s"
    "clientRooms (broadcastToRoom rm ex f s) = clientRooms s"
    "rateLimits (broadcastToRoom rm ex f s) = rateLimits s"
    by simp_all
qed

lemma members_broadcastToRoom [simp]:
  "members r (broadcastToRoom rm ex f s) = members r s"
  by (simp add: members_def)

lemma clients_handleClientDisconnect:
  "clients (handleClientDisconnect k now s) = (clients s)(k := None)"
  by (auto simp: handleClientDisconnect_def Let_def split: option.splits)

lemma clientRooms_handleClientDisconnect:
  "clients s k = Some c \<Longrightarrow>
   clientRooms (handleClientDisconnect k now s) = (clientRooms s)(k := None)"
  by (auto simp: handleClientDisconnect_def Let_def split: option.splits)

lemma rateLimits_handleClientDisconnect [simp]:
  "rateLimits (handleClientDisconnect k now s) = rateLimits s"
  by (auto simp: handleClientDisconnect_def Let_def split: option.splits)

lemma members_handleClientDisconnect:
  "clients s k = Some c \<Longrightarrow>
   members rm (handleClientDisconnect k now s) =
     (if rm = room c then set_delete k (members rm s) else members rm s)"
  by (auto simp: handleClientDisconnect_def Let_def members_def set_delete_def
      split: option.splits)

lemma rooms_handleClientDisconnect:
  "clients s k = Some c \<Longrightarrow>
   rooms (handleClientDisconnect k now s) rm =
     (if rm = room c then
        (case rooms s rm of None \<Rightarrow> None
         | Some roomObj \<Rightarrow>
            if set_delete k (r_clients roomObj) = [] then None
            else Some (roomObj\<lparr>r_clients := set_delete k (r_clients roomObj)\<rparr>))
      else rooms s rm)"
  by (auto simp: handleClientDisconnect_def Let_def split: option.splits)

lemma handleClientDisconnect_absent:
  "clients s k = None \<Longrightarrow> handleClientDisconnect k now s = s"
  by (simp add: handleClientDisconnect_def)

section \<open>Invariants of the registry\<close>

lemma well_formed_init: "well_formed init_state"
  by (simp add: well_formed_def init_state_def)

lemma consistent_init: "consistent init_state"
  by (simp add: consistent_def init_state_def members_def)

lemma no_empty_rooms_init: "no_empty_rooms init_state"
  by (simp add: no_empty_rooms_def init_state_def members_def)

lemma names_sanitized_init: "names_sanitized init_state"
  by (simp add: names_sanitized_def init_state_def)

lemma well_formed_handleWebSocket:
  "well_formed s \<Longrightarrow> well_formed (handleWebSocket req k now s)"
  unfolding well_formed_def
  by (auto simp: handleWebSocket_def Let_def split: option.splits if_splits)

lemma well_formed_handleClientDisconnect:
  "well_formed s \<Longrightarrow> well_formed (handleClientDisconnect k now s)"
proof (cases "clients s k")
  case None
  then show "well_formed s \<Longrightarrow> ?thesis" by (simp add: handleClientDisconnect_absent)
next
  case (Some c)
  assume wf: "well_formed s"
  show ?thesis
    unfolding well_formed_def
  proof (intro conjI allI impI)
    fix k' c' assume "clients (handleClientDisconnect k now s) k' = Some c'"
    then show "userId c' = k'"
      using wf by (auto simp: clients_handleClientDisconnect well_formed_def split: if_splits)
  next
    fix rm roomObj assume "rooms (handleClientDisconnect k now s) rm = Some roomObj"
    then show "distinct (r_clients roomObj)"
      using wf Some
      by (auto simp: rooms_handleClientDisconnect well_formed_def split: if_splits option.splits)
  qed
qed

lemma consistent_handleWebSocket:
  assumes "consistent s" and fresh: "clients s k = None"
  shows "consistent (handleWebSocket req k now s)"
  unfolding consistent_def
proof (intro conjI allI impI)
  fix rm k' assume m: "k' \<in> set (members rm (handleWebSocket req k now s))"
  show "\<exists>c. clients (handleWebSocket req k now s) k' = Some c \<and> room c = rm"
  proof (cases "k' = k")
    case True
    have "rm = join_room req"
    proof (rule ccontr)
      assume "rm \<noteq> join_room req"
      with m True have "k \<in> set (members rm s)" by (simp add: members_handleWebSocket)
      with assms(1) have "\<exists>c. clients s k = Some c \<and> room c = rm"
        unfolding consistent_def by blast
      with fresh show False by simp
    qed
    with True show ?thesis by (simp add: clients_handleWebSocket)
  next
    case False
    with m have "k' \<in> set (members rm s)"
      by (auto simp: members_handleWebSocket split: if_splits)
    with assms(1) False show ?thesis by (auto simp: consistent_def clients_handleWebSocket)
  qed
next
  fix k' c assume c: "clients (handleWebSocket req k now s) k' = Some c"
  show "k' \<in> set (members (room c) (handleWebSocket req k now s))"
  proof (cases "k' = k")
    case True
    with c have "room c = join_room req" by (auto simp: clients_handleWebSocket)
    with True show ?thesis by (simp add: members_handleWebSocket)
  next
    case False
    with c have "clients s k' = Some c" by (simp add: clients_handleWebSocket)
    with assms(1) have "k' \<in> set (members (room c) s)"
      unfolding consistent_def by blast
    then show ?thesis by (auto simp: members_handleWebSocket)
  qed
qed

lemma consistent_handleClientDisconnect:
  assumes "consistent s"
  shows "consistent (handleClientDisconnect k now s)"
proof (cases "clients s k")
  case None
  with assms show ?thesis by (simp add: handleClientDisconnect_absent)
next
  case (Some c)
  show ?thesis
    unfolding consistent_def
  proof (intro conjI allI impI)
    fix rm k' assume m: "k' \<in> set (members rm (handleClientDisconnect k now s))"
    then have in_old: "k' \<in> set (members rm s)"
      using Some by (auto simp: members_handleClientDisconnect split: if_splits)
    then obtain c' where c': "clients s k' = Some c'" "room c' = rm"
      using assms by (auto simp: consistent_def)
    have "k' \<noteq> k"
    proof
      assume "k' = k"
      with c' Some have "rm = room c" by simp
      with m Some \<open>k' = k\<close> show False by (simp add: members_handleClientDisconnect)
    qed
    with c' show "\<exists>c. clients (handleClientDisconnect k now s) k' = Some c \<and> room c = rm"
      by (simp add: clients_handleClientDisconnect)
  next
    fix k' c' assume "clients (handleClientDisconnect k now s) k' = Some c'"
    then have ne: "k' \<noteq> k" and c': "clients s k' = Some c'"
      by (auto simp: clients_handleClientDisconnect split: if_splits)
    with assms have "k' \<in> set (members (room c') s)" by (auto simp: consistent_def)
    with ne Some show "k' \<in> set (members (room c') (handleClientDisconnect k now s))"
      by (auto simp: members_handleClientDisconnect)
  qed
qed

lemma no_empty_rooms_handleWebSocket:
  "no_empty_rooms s \<Longrightarrow> no_empty_rooms (handleWebSocket req k now s)"
  unfolding no_empty_rooms_def
  using rooms_handleWebSocket_joined [of req k now s]
  by (auto simp: members_handleWebSocket rooms_handleWebSocket_other)

lemma no_empty_rooms_handleClientDisconnect:
  assumes "no_empty_rooms s"
  shows "no_empty_rooms (handleClientDisconnect k now s)"
proof (cases "clients s k")
  case None
  with assms show ?thesis by (simp add: handleClientDisconnect_absent)
next
  case (Some c)
  show ?thesis
    unfolding no_empty_rooms_def
  proof
    fix rm
    show "(rooms (handleClientDisconnect k now s) rm \<noteq> None) =
          (members rm (handleClientDisconnect k now s) \<noteq> [])"
      using assms Some
      by (auto simp: rooms_handleClientDisconnect members_handleClientDisconnect
          no_empty_rooms_def members_def split: option.splits)
  qed
qed

lemma names_sanitized_handleWebSocket:
  assumes "names_sanitized s"
  shows "names_sanitized (handleWebSocket req k now s)"
  unfolding names_sanitized_def
proof (intro conjI allI impI)
  fix k' c assume "clients (handleWebSocket req k now s) k' = Some c"
  then show "sanitizeInput (name c) = name c" "sanitizeInput (room c) = room c"
    using assms
    by (auto simp: clients_handleWebSocket names_sanitized_def join_room_def sanitizeInput_idem
        split: if_splits)
next
  fix rm roomObj assume r: "rooms (handleWebSocket req k now s) rm = Some roomObj"
  show "sanitizeInput rm = rm"
  proof (cases "rm = join_room req")
    case True
    then show ?thesis by (simp add: join_room_def sanitizeInput_idem)
  next
    case False
    with r assms show ?thesis by (auto simp: rooms_handleWebSocket_other names_sanitized_def)
  qed
  show "r_name roomObj = rm"
  proof (cases "rm = join_room req")
    case True
    with r rooms_handleWebSocket_joined [of req k now s] assms show ?thesis
      by (auto simp: names_sanitized_def split: option.splits)
  next
    case False
    with r assms show ?thesis by (auto simp: rooms_handleWebSocket_other names_sanitized_def)
  qed
qed

lemma names_sanitized_handleClientDisconnect:
  assumes "names_sanitized s"
  shows "names_sanitized (handleClientDisconnect k now s)"
proof (cases "clients s k")
  case None
  with assms show ?thesis by (simp add: handleClientDisconnect_absent)
next
  case (Some c)
  show ?thesis
    unfolding names_sanitized_def
  proof (intro conjI allI impI)
    fix k' c' assume "clients (handleClientDisconnect k now s) k' = Some c'"
    then have "clients s k' = Some c'"
      by (auto simp: clients_handleClientDisconnect split: if_splits)
    with assms show "sanitizeInput (name c') = name c'" "sanitizeInput (room c') = room c'"
      by (auto simp: names_sanitized_def)
  next
    fix rm roomObj assume "rooms (handleClientDisconnect k now s) rm = Some roomObj"
    then obtain old where "rooms s rm = Some old" "r_name roomObj = r_name old"
      using Some by (auto simp: rooms_handleClientDisconnect split: if_splits option.splits)
    with assms show "sanitizeInput rm = rm" "r_name roomObj = rm"
      by (auto simp: names_sanitized_def)
  qed
qed

lemma well_formed_run: "well_formed s \<Longrightarrow> well_formed (run ops s)"
proof (induction ops arbitrary: s)
  case Nil
  then show ?case by simp
next
  case (Cons operation ops)
  then show ?case
    by (cases operation)
      (simp_all add: well_formed_handleWebSocket well_formed_handleClientDisconnect)
qed

lemma no_empty_rooms_step: "no_empty_rooms s \<Longrightarrow> no_empty_rooms (step operation s)"
  by (cases operation)
    (simp_all add: no_empty_rooms_handleWebSocket no_empty_rooms_handleClientDisconnect)

lemma no_empty_rooms_run: "no_empty_rooms s \<Longrightarrow> no_empty_rooms (run ops s)"
  by (induction ops arbitrary: s) (simp_all add: no_empty_rooms_step del: step.simps)

lemma names_sanitized_run: "names_sanitized s \<Longrightarrow> names_sanitized (run ops s)"
proof (induction ops arbitrary: s)
  case Nil
  then show ?case by simp
next
  case (Cons operation ops)
  then show ?case
    by (cases operation)
      (simp_all add: names_sanitized_handleWebSocket names_sanitized_handleClientDisconnect)
qed


section \<open>The opening of a socket\<close>

text \<open>The opening of a socket touches neither the keys of the registry nor the rooms.\<close>

lemma clients_onopen:
  "clients (onopen k now s) =
     (case clients s k of None \<Rightarrow> clients s
      | Some c \<Rightarrow> (clients s)(k \<mapsto> c\<lparr>socket := \<lparr>readyState = OPEN\<rparr>\<rparr>))"
  by (simp add: onopen_def Let_def split: option.splits)

lemma rooms_onopen [simp]: "rooms (onopen k now s) = rooms s"
  by (simp add: onopen_def Let_def split: option.splits)

lemma members_onopen [simp]: "members rm (onopen k now s) = members rm s"
  by (simp add: members_def)

lemma well_formed_onopen: "well_formed s \<Longrightarrow> well_formed (onopen k now s)"
  by (auto simp: well_formed_def clients_onopen split: option.splits if_splits)

lemma consistent_onopen:
  assumes "consistent s"
  shows "consistent (onopen k now s)"
proof (cases "clients s k")
  case None
  with assms show ?thesis by (simp add: onopen_def)
next
  case (Some c)
  have entries: "clients (onopen k now s) k' =
      (if k' = k then Some (c\<lparr>socket := \<lparr>readyState = OPEN\<rparr>\<rparr>) else clients s k')" for k'
    using Some by (simp add: clients_onopen)
  show ?thesis
    unfolding consistent_def
  proof (intro conjI allI impI)
    fix rm k' assume "k' \<in> set (members rm (onopen k now s))"
    then have "k' \<in> set (members rm s)" by simp
    with assms obtain c' where c': "clients s k' = Some c'" "room c' = rm"
      unfolding consistent_def by blast
    with Some show "\<exists>c. clients (onopen k now s) k' = Some c \<and> room c = rm"
      by (auto simp: entries)
  next
    fix k' c' assume "clients (onopen k now s) k' = Some c'"
    then obtain old where "clients s k' = Some old" "room c' = room old"
      using Some by (auto simp: entries split: if_splits)
    with assms show "k' \<in> set (members (room c') (onopen k now s))"
      unfolding consistent_def by auto
  qed
qed

lemma no_empty_rooms_onopen: "no_empty_rooms s \<Longrightarrow> no_empty_rooms (onopen k now s)"
  by (simp add: no_empty_rooms_def)

text \<open>Every state that joins and disconnects lead to from the initial state is well
  formed, and so is the example state in which Bob's socket has not opened yet.\<close>

lemma well_formed_reachable: "well_formed (run ops init_state)"
  by (rule well_formed_run) (rule well_formed_init)

lemma well_formed_bob_not_open_yet: "well_formed bob_not_open_yet"
  unfolding bob_not_open_yet_def
  by (intro well_formed_handleWebSocket well_formed_onopen well_formed_init)

lemma consistent_bob_not_open_yet: "consistent bob_not_open_yet"
  unfolding bob_not_open_yet_def
proof (intro consistent_handleWebSocket consistent_onopen consistent_init)
  show "clients init_state ''A'' = None" by (simp add: init_state_def)
  show "clients (onopen ''A'' 0 (handleWebSocket (request_of ''Alice'' ''r1'') ''A'' 0 init_state)) ''B''
      = None"
    by (simp add: clients_onopen clients_handleWebSocket init_state_def)
qed

section \<open>Sanitised names and texts\<close>

lemma new_sends_append [simp]: "new_sends s (s\<lparr>sent := sent s @ xs\<rparr>) = xs"
  by (simp add: new_sends_def)

lemma new_sends_socket_send [simp]: "new_sends s (socket_send c f s) = [(userId c, f)]"
  by (simp add: new_sends_def)

lemma new_sends_self [simp]: "new_sends s s = []"
  by (simp add: new_sends_def)

lemma chat_frames_sanitized:
  assumes "handleChatMessage c m now s = Inr s'"
    and "(k, Chat uid nm chatText ts) \<in> set (new_sends s s')"
  shows "sanitizeInput chatText = chatText"
proof -
  obtain str where str: "sanitize_value (js_or (property m ''message'') (JStr [])) = Inr (sanitizeInput str)"
    using assms(1) by (auto simp: handleChatMessage_def sanitize_value_def split: sum.splits jsval.splits)
  show ?thesis
  proof (cases "length (sanitizeInput str) > 500")
    case True
    with assms str show ?thesis by (auto simp: handleChatMessage_def)
  next
    case False
    obtain ks where "broadcastToRoom (room c) None
        (Chat (userId c) (name c) (sanitizeInput str) (IsoString now)) s =
        s\<lparr>sent := sent s @ map (\<lambda>k. (k, Chat (userId c) (name c) (sanitizeInput str) (IsoString now))) ks\<rparr>"
      using broadcastToRoom_appends by blast
    with assms str False have "chatText = sanitizeInput str"
      by (auto simp: handleChatMessage_def)
    then show ?thesis by (simp add: sanitizeInput_idem)
  qed
qed

lemma chat_frames_sanitized_deploy:
  assumes "handleChatMessage_deploy c m now s = Inr s'"
    and "(k, Chat uid nm chatText ts) \<in> set (new_sends s s')"
  shows "sanitizeInput_deploy chatText = chatText"
proof -
  obtain str where str: "sanitize_value_deploy (js_or (property m ''message'') (JStr [])) = Inr (sanitizeInput str)"
    using assms(1)
    by (auto simp: handleChatMessage_deploy_def sanitize_value_deploy_def sanitizeInput_deploy_eq
        split: sum.splits jsval.splits)
  show ?thesis
  proof (cases "length (sanitizeInput str) > 500")
    case True
    with assms str show ?thesis by (auto simp: handleChatMessage_deploy_def)
  next
    case False
    obtain ks where "broadcastToRoom (room c) None
        (Chat (userId c) (name c) (sanitizeInput str) (Millis now)) s =
        s\<lparr>sent := sent s @ map (\<lambda>k. (k, Chat (userId c) (name c) (sanitizeInput str) (Millis now))) ks\<rparr>"
      using broadcastToRoom_appends by blast
    with assms str False have "chatText = sanitizeInput str"
      by (auto simp: handleChatMessage_deploy_def)
    then show ?thesis by (simp add: sanitizeInput_idem sanitizeInput_deploy_eq)
  qed
qed

text \<open>
  C10. \<^verbatim>\<open>sanitizeInput\<close> is idempotent, in \<^verbatim>\<open>server.ts\<close> and in the deployment variant,
  and its result holds none of the characters \<open><\<close>, \<open>>\<close>, double quote and single quote.
  Hence, after any sequence of joins and disconnects, every stored display name and
  room name is a fixed point of it, and so is the text of every chat frame that
  \<^verbatim>\<open>handleChatMessage\<close> sends.
\<close>

theorem sanitizeInput_idempotent:
  "sanitizeInput (sanitizeInput str) = sanitizeInput str \<and>
   sanitizeInput_deploy (sanitizeInput_deploy str) = sanitizeInput_deploy str \<and>
   set (sanitizeInput str) \<inter> {CHR ''<'', CHR ''>'', CHR 0x22, CHR 0x27} = {} \<and>
   set (sanitizeInput_deploy str) \<inter> {CHR ''<'', CHR ''>'', CHR 0x22, CHR 0x27} = {} \<and>
   names_sanitized (run ops init_state) \<and>
   (handleChatMessage c m now s = Inr s' \<and> (k, Chat uid nm chatText ts) \<in> set (new_sends s s')
      \<longrightarrow> sanitizeInput chatText = chatText) \<and>
   (handleChatMessage_deploy c m now s = Inr s' \<and> (k, Chat uid nm chatText ts) \<in> set (new_sends s s')
      \<longrightarrow> sanitizeInput_deploy chatText = chatText)"
proof (intro conjI)
  show "sanitizeInput (sanitizeInput str) = sanitizeInput str"
    by (rule sanitizeInput_idem)
  show "sanitizeInput_deploy (sanitizeInput_deploy str) = sanitizeInput_deploy str"
    by (simp add: sanitizeInput_deploy_eq sanitizeInput_idem)
  show "set (sanitizeInput str) \<inter> {CHR ''<'', CHR ''>'', CHR 0x22, CHR 0x27} = {}"
    using sanitizeInput_clean [of str] by (simp add: specials_def)
  then show "set (sanitizeInput_deploy str) \<inter> {CHR ''<'', CHR ''>'', CHR 0x22, CHR 0x27} = {}"
    by (simp add: sanitizeInput_deploy_eq)
  show "names_sanitized (run ops init_state)"
    by (rule names_sanitized_run) (rule names_sanitized_init)
  show "handleChatMessage c m now s = Inr s' \<and> (k, Chat uid nm chatText ts) \<in> set (new_sends s s')
      \<longrightarrow> sanitizeInput chatText = chatText"
    using chat_frames_sanitized by blast
  show "handleChatMessage_deploy c m now s = Inr s' \<and> (k, Chat uid nm chatText ts) \<in> set (new_sends s s')
      \<longrightarrow> sanitizeInput_deploy chatText = chatText"
    using chat_frames_sanitized_deploy by blast
qed

lemma sanitizeInput_example: "sanitizeInput ''<b>'' = ''&lt;b&gt;''"
  by (simp add: sanitizeInput_def)

lemma example_chat:
  "handleChatMessage alice [''type'' \<mapsto> JStr ''chat'', ''message'' \<mapsto> JStr ''<b>''] 7 (three_clients bob)
   = Inr ((three_clients bob)\<lparr>sent := [(''A'', Chat ''A'' ''Alice'' ''&lt;b&gt;'' (IsoString 7)),
            (''B'', Chat ''A'' ''Alice'' ''&lt;b&gt;'' (IsoString 7))]\<rparr>)"
  by (simp add: handleChatMessage_def property_def js_or_def sanitize_value_def sanitizeInput_def
      broadcastToRoom_def three_clients_def alice_def bob_def socket_send_def)

lemma example_chat_deploy:
  "handleChatMessage_deploy alice [''type'' \<mapsto> JStr ''chat'', ''message'' \<mapsto> JStr ''<b>''] 7 (three_clients bob)
   = Inr ((three_clients bob)\<lparr>sent := [(''A'', Chat ''A'' ''Alice'' ''&lt;b&gt;'' (Millis 7)),
            (''B'', Chat ''A'' ''Alice'' ''&lt;b&gt;'' (Millis 7))]\<rparr>)"
  by (simp add: handleChatMessage_deploy_def property_def js_or_def sanitize_value_deploy_def
      sanitizeInput_deploy_def broadcastToRoom_def three_clients_def alice_def bob_def
      socket_send_def)

lemma example_new_sends: "new_sends (three_clients b) ((three_clients b)\<lparr>sent := xs\<rparr>) = xs"
  by (simp add: new_sends_def three_clients_def)

theorem sanitizeInput_idempotent_witness:
  "sanitizeInput (sanitizeInput ''<b>'') = ''&lt;b&gt;'' \<and>
   handleChatMessage alice [''type'' \<mapsto> JStr ''chat'', ''message'' \<mapsto> JStr ''<b>''] 7
     (three_clients bob) =
     Inr ((three_clients bob)\<lparr>sent := [(''A'', Chat ''A'' ''Alice'' ''&lt;b&gt;'' (IsoString 7)),
          (''B'', Chat ''A'' ''Alice'' ''&lt;b&gt;'' (IsoString 7))]\<rparr>) \<and>
   handleChatMessage_deploy alice [''type'' \<mapsto> JStr ''chat'', ''message'' \<mapsto> JStr ''<b>''] 7
     (three_clients bob) =
     Inr ((three_clients bob)\<lparr>sent := [(''A'', Chat ''A'' ''Alice'' ''&lt;b&gt;'' (Millis 7)),
          (''B'', Chat ''A'' ''Alice'' ''&lt;b&gt;'' (Millis 7))]\<rparr>) \<and>
   sanitizeInput ''&lt;b&gt;'' = ''&lt;b&gt;'' \<and>
   sanitizeInput_deploy ''&lt;b&gt;'' = ''&lt;b&gt;'' \<and>
   names_sanitized (run [Join (request_of ''<i>Al'' ''r<1>'') ''A'' 0] init_state)"
  using sanitizeInput_idempotent [where str = "''<b>''" and c = alice
      and m = "[''type'' \<mapsto> JStr ''chat'', ''message'' \<mapsto> JStr ''<b>'']" and now = 7
      and s = "three_clients bob"
      and s' = "(three_clients bob)\<lparr>sent := [(''A'', Chat ''A'' ''Alice'' ''&lt;b&gt;'' (IsoString 7)),
          (''B'', Chat ''A'' ''Alice'' ''&lt;b&gt;'' (IsoString 7))]\<rparr>"
      and k = "''B''" and uid = "''A''" and nm = "''Alice''" and chatText = "''&lt;b&gt;''"
      and ts = "IsoString 7" and ops = "[Join (request_of ''<i>Al'' ''r<1>'') ''A'' 0]"]
    sanitizeInput_idempotent [where str = "''<b>''" and c = alice
      and m = "[''type'' \<mapsto> JStr ''chat'', ''message'' \<mapsto> JStr ''<b>'']" and now = 7
      and s = "three_clients bob"
      and s' = "(three_clients bob)\<lparr>sent := [(''A'', Chat ''A'' ''Alice'' ''&lt;b&gt;'' (Millis 7)),
          (''B'', Chat ''A'' ''Alice'' ''&lt;b&gt;'' (Millis 7))]\<rparr>"
      and k = "''B''" and uid = "''A''" and nm = "''Alice''" and chatText = "''&lt;b&gt;''"
      and ts = "Millis 7" and ops = "[]"]
  by (simp add: example_chat example_chat_deploy example_new_sends sanitizeInput_example)

section \<open>Consistency of registry and directory\<close>

lemma members_init [simp]: "members rm init_state = []"
  by (simp add: members_def init_state_def)

lemma clients_init [simp]: "clients init_state = Map.empty"
  and rooms_init [simp]: "rooms init_state = Map.empty"
  by (simp_all add: init_state_def)

lemma join_room_request_of: "join_room (request_of nm ''r1'') = ''r1''"
  by (simp add: join_room_def request_of_def param_or_def sanitizeInput_def)

text \<open>
  The freshness of the id is needed: \<^verbatim>\<open>handleWebSocket\<close> does not look the id up, and a
  join under an id that is registered in another room leaves the id in both member sets.
\<close>

lemma handleWebSocket_registered_id:
  "consistent (three_clients bob) \<and>
   \<not> consistent (handleWebSocket (request_of ''Bob'' ''r2'') ''B'' 3 (three_clients bob))"
proof
  show "consistent (three_clients bob)"
    by (auto simp: consistent_def members_def three_clients_def alice_def bob_def carol_def
        split: if_splits)
  have "''B'' \<in> set (members ''r1'' (handleWebSocket (request_of ''Bob'' ''r2'') ''B'' 3 (three_clients bob)))"
    by (subst members_handleWebSocket)
      (simp add: join_room_def request_of_def param_or_def sanitizeInput_def members_def
        three_clients_def)
  moreover have "\<not> (\<exists>c. clients (handleWebSocket (request_of ''Bob'' ''r2'') ''B'' 3 (three_clients bob)) ''B'' = Some c
      \<and> room c = ''r1'')"
    by (simp add: clients_handleWebSocket join_room_def request_of_def param_or_def
        sanitizeInput_def)
  ultimately show "\<not> consistent (handleWebSocket (request_of ''Bob'' ''r2'') ''B'' 3 (three_clients bob))"
    unfolding consistent_def by blast
qed





lemma join_creates_room:
  "rooms s (join_room req) = None \<Longrightarrow> members (join_room req) (handleWebSocket req k now s) = [k]"
  by (subst members_handleWebSocket) (simp add: members_def set_add_def)

lemma last_leave_deletes_room:
  assumes "clients s k = Some c" and "set (members (room c) s) \<subseteq> {k}"
  shows "rooms (handleClientDisconnect k now s) (room c) = None"
proof -
  from assms(2) have "set_delete k (members (room c) s) = []"
    by (auto simp: set_delete_def filter_empty_conv removeAll_filter_not_eq)
  with assms(1) show ?thesis
    by (auto simp: rooms_handleClientDisconnect members_def split: option.splits)
qed

text \<open>
  C7. After every sequence of joins and disconnects, and after each single one from a
  state that has the property, a room name is in the \<^verbatim>\<open>rooms\<close> map exactly when its
  member set is not empty. A join to a name that the map does not hold creates the room
  with the joining id as its only member, and the disconnect of the last member of a
  room deletes the room.
\<close>

theorem no_empty_room_persists:
  "no_empty_rooms (run ops init_state) \<and>
   (no_empty_rooms s \<longrightarrow> no_empty_rooms (step operation s)) \<and>
   (rooms s (join_room req) = None \<longrightarrow>
      members (join_room req) (handleWebSocket req k now s) = [k]) \<and>
   (clients s k = Some c \<and> set (members (room c) s) \<subseteq> {k} \<longrightarrow>
      rooms (handleClientDisconnect k now s) (room c) = None)"
  using no_empty_rooms_run [OF no_empty_rooms_init] no_empty_rooms_step join_creates_room
    last_leave_deletes_room by blast

lemma example_join_client:
  "clients (handleWebSocket (request_of ''Alice'' ''r1'') ''A'' 0 init_state) ''A'' = Some alice_joining"
  by (simp add: clients_handleWebSocket join_room_request_of alice_joining_def)
    (simp add: request_of_def param_or_def sanitizeInput_def)

theorem no_empty_room_persists_witness:
  "no_empty_rooms (run [Join (request_of ''Alice'' ''r1'') ''A'' 0, Leave ''A'' 2] init_state) \<and>
   no_empty_rooms init_state \<and>
   no_empty_rooms (step (Join (request_of ''Alice'' ''r1'') ''A'' 0) init_state) \<and>
   rooms init_state ''r1'' = None \<and>
   members ''r1'' (handleWebSocket (request_of ''Alice'' ''r1'') ''A'' 0 init_state) = [''A''] \<and>
   clients (handleWebSocket (request_of ''Alice'' ''r1'') ''A'' 0 init_state) ''A'' = Some alice_joining \<and>
   rooms (handleClientDisconnect ''A'' 2
      (handleWebSocket (request_of ''Alice'' ''r1'') ''A'' 0 init_state)) ''r1'' = None"
proof -
  have inv: "no_empty_rooms init_state" by (rule no_empty_rooms_init)
  have absent: "rooms init_state (join_room (request_of ''Alice'' ''r1'')) = None" by simp
  have reg: "clients (handleWebSocket (request_of ''Alice'' ''r1'') ''A'' 0 init_state) ''A''
      = Some alice_joining"
    by (rule example_join_client)
  have "members ''r1'' (handleWebSocket (request_of ''Alice'' ''r1'') ''A'' 0 init_state) = [''A'']"
    using absent
      no_empty_room_persists [where s = init_state and req = "request_of ''Alice'' ''r1''"
        and k = "''A''" and now = 0]
    by (simp add: join_room_request_of)
  then have only: "set (members (room alice_joining)
      (handleWebSocket (request_of ''Alice'' ''r1'') ''A'' 0 init_state)) \<subseteq> {''A''}"
    by (simp add: alice_joining_def)
  show ?thesis
    using inv absent reg only
      no_empty_room_persists [where s = init_state and req = "request_of ''Alice'' ''r1''"
        and k = "''A''" and now = 0 and operation = "Join (request_of ''Alice'' ''r1'') ''A'' 0"
        and ops = "[Join (request_of ''Alice'' ''r1'') ''A'' 0, Leave ''A'' 2]"]
      no_empty_room_persists [where s = "handleWebSocket (request_of ''Alice'' ''r1'') ''A'' 0 init_state"
        and k = "''A''" and now = 2 and c = alice_joining]
    by (simp add: join_room_request_of alice_joining_def)
qed

section \<open>The rate limiter\<close>

lemma isRateLimited_fresh:
  "window_over s addr now \<Longrightarrow>
   isRateLimited addr now s =
     (False, s\<lparr>rateLimits := (rateLimits s)(addr \<mapsto> \<lparr>count = 1, resetTime = now + 60000\<rparr>)\<rparr>)"
  by (auto simp: isRateLimited_def window_over_def split: option.splits)

lemma isRateLimited_rejected:
  "rateLimits s addr = Some limit \<Longrightarrow> now \<le> resetTime limit \<Longrightarrow> 100 \<le> count limit \<Longrightarrow>
   isRateLimited addr now s = (True, s)"
  by (simp add: isRateLimited_def)

lemma isRateLimited_counted:
  "rateLimits s addr = Some limit \<Longrightarrow> now \<le> resetTime limit \<Longrightarrow> count limit < 100 \<Longrightarrow>
   isRateLimited addr now s =
     (False, s\<lparr>rateLimits := (rateLimits s)(addr \<mapsto> limit\<lparr>count := Suc (count limit)\<rparr>)\<rparr>)"
  by (simp add: isRateLimited_def)

lemma counts_bounded_isRateLimited:
  "counts_bounded s \<Longrightarrow> counts_bounded (snd (isRateLimited addr now s))"
  by (auto simp: counts_bounded_def isRateLimited_def split: option.splits if_splits)

lemma fst_rate_calls_Cons:
  "fst (rate_calls addr (now # nows) s) =
     fst (isRateLimited addr now s) # fst (rate_calls addr nows (snd (isRateLimited addr now s)))"
  by (simp split: prod.splits)

lemma snd_rate_calls_Cons:
  "snd (rate_calls addr (now # nows) s) =
     snd (rate_calls addr nows (snd (isRateLimited addr now s)))"
  by (simp split: prod.splits)

lemma rate_calls_in_window:
  "rateLimits s addr = Some limit \<Longrightarrow> \<forall>t \<in> set nows. t \<le> resetTime limit \<Longrightarrow>
   count limit \<le> 100 \<Longrightarrow>
   fst (rate_calls addr nows s) =
     replicate (min (100 - count limit) (length nows)) False @
     replicate (length nows - (100 - count limit)) True \<and>
   rateLimits (snd (rate_calls addr nows s)) addr =
     Some (limit\<lparr>count := min 100 (count limit + length nows)\<rparr>)"
proof (induction nows arbitrary: s limit)
  case Nil
  then show ?case by simp
next
  case (Cons now nows)
  from Cons.prems have now: "now \<le> resetTime limit" by simp
  show ?case
  proof (cases "count limit < 100")
    case False
    with Cons.prems have full: "count limit = 100" by simp
    then have step: "isRateLimited addr now s = (True, s)"
      using Cons.prems now by (simp add: isRateLimited_rejected)
    from Cons.IH [of s limit] Cons.prems full
    have "fst (rate_calls addr nows s) = replicate (length nows) True"
      and "rateLimits (snd (rate_calls addr nows s)) addr = Some (limit\<lparr>count := 100\<rparr>)"
      by simp_all
    with step full show ?thesis
      by (simp add: fst_rate_calls_Cons snd_rate_calls_Cons del: rate_calls.simps)
  next
    case True
    let ?limit' = "limit\<lparr>count := Suc (count limit)\<rparr>"
    let ?s' = "s\<lparr>rateLimits := (rateLimits s)(addr \<mapsto> ?limit')\<rparr>"
    have step: "isRateLimited addr now s = (False, ?s')"
      using Cons.prems now True by (simp add: isRateLimited_counted)
    have "fst (rate_calls addr nows ?s') =
        replicate (min (100 - count ?limit') (length nows)) False @
        replicate (length nows - (100 - count ?limit')) True \<and>
      rateLimits (snd (rate_calls addr nows ?s')) addr =
        Some (?limit'\<lparr>count := min 100 (count ?limit' + length nows)\<rparr>)"
      using Cons.prems True by (intro Cons.IH) simp_all
    then have flags: "fst (rate_calls addr nows ?s') =
        replicate (min (99 - count limit) (length nows)) False @
        replicate (length nows - (99 - count limit)) True"
      and buckets: "rateLimits (snd (rate_calls addr nows ?s')) addr =
        Some (limit\<lparr>count := min 100 (Suc (count limit + length nows))\<rparr>)"
      by simp_all
    have a: "min (100 - count limit) (Suc (length nows)) = Suc (min (99 - count limit) (length nows))"
      using True by simp
    have b: "Suc (length nows) - (100 - count limit) = length nows - (99 - count limit)"
      using True by simp
    show ?thesis
      using step flags buckets
      by (simp add: a b fst_rate_calls_Cons snd_rate_calls_Cons del: rate_calls.simps)
  qed
qed

lemma rate_calls_window:
  assumes "window_over s addr now" and "\<forall>t \<in> set nows. t \<le> now + 60000"
  shows "fst (rate_calls addr (now # nows) s) =
       replicate (min 100 (Suc (length nows))) False @ replicate (length nows - 99) True"
    and "rateLimits (snd (rate_calls addr (now # nows) s)) addr =
       Some \<lparr>count = min 100 (Suc (length nows)), resetTime = now + 60000\<rparr>"
proof -
  let ?limit = "\<lparr>count = 1, resetTime = now + 60000\<rparr>"
  let ?s' = "s\<lparr>rateLimits := (rateLimits s)(addr \<mapsto> ?limit)\<rparr>"
  have step: "isRateLimited addr now s = (False, ?s')"
    using assms(1) by (rule isRateLimited_fresh)
  have rest: "fst (rate_calls addr nows ?s') =
      replicate (min (100 - count ?limit) (length nows)) False @
      replicate (length nows - (100 - count ?limit)) True \<and>
    rateLimits (snd (rate_calls addr nows ?s')) addr =
      Some (?limit\<lparr>count := min 100 (count ?limit + length nows)\<rparr>)"
    using assms(2) by (intro rate_calls_in_window) simp_all
  have a: "min 100 (Suc (length nows)) = Suc (min 99 (length nows))" by simp
  show "fst (rate_calls addr (now # nows) s) =
       replicate (min 100 (Suc (length nows))) False @ replicate (length nows - 99) True"
    using step rest
    by (simp add: a fst_rate_calls_Cons snd_rate_calls_Cons del: rate_calls.simps)
  show "rateLimits (snd (rate_calls addr (now # nows) s)) addr =
       Some \<lparr>count = min 100 (Suc (length nows)), resetTime = now + 60000\<rparr>"
    using step rest
    by (simp add: fst_rate_calls_Cons snd_rate_calls_Cons del: rate_calls.simps)
qed

text \<open>
  C5. Admission follows the fixed-window algorithm. When the origin has no bucket or its
  window is over, the call is admitted and installs a bucket with count 1 and a window of
  60000 ms. Of the calls that follow within that window, the first 100 in all are
  admitted and every later one is rejected; a rejected call leaves the state as it is,
  so the count stays at 100, and no call lets a count pass 100.
\<close>

theorem isRateLimited_fixed_window:
  "(window_over s addr now \<longrightarrow>
      isRateLimited addr now s =
        (False, s\<lparr>rateLimits := (rateLimits s)(addr \<mapsto> \<lparr>count = 1, resetTime = now + 60000\<rparr>)\<rparr>)) \<and>
   (window_over s addr now \<and> (\<forall>t \<in> set nows. t \<le> now + 60000) \<longrightarrow>
      fst (rate_calls addr (now # nows) s) =
        replicate (min 100 (Suc (length nows))) False @ replicate (length nows - 99) True \<and>
      rateLimits (snd (rate_calls addr (now # nows) s)) addr =
        Some \<lparr>count = min 100 (Suc (length nows)), resetTime = now + 60000\<rparr>) \<and>
   (window_over s addr now \<and> (\<forall>t \<in> set nows. t \<le> now + 60000) \<and> length nows = 100 \<longrightarrow>
      fst (rate_calls addr (now # nows) s) = replicate 100 False @ [True]) \<and>
   (rateLimits s addr = Some limit \<and> now \<le> resetTime limit \<and> 100 \<le> count limit \<longrightarrow>
      isRateLimited addr now s = (True, s)) \<and>
   (counts_bounded s \<longrightarrow> counts_bounded (snd (isRateLimited addr now s)))"
proof (intro conjI impI)
  assume "window_over s addr now"
  then show "isRateLimited addr now s =
      (False, s\<lparr>rateLimits := (rateLimits s)(addr \<mapsto> \<lparr>count = 1, resetTime = now + 60000\<rparr>)\<rparr>)"
    by (rule isRateLimited_fresh)
next
  assume a: "window_over s addr now \<and> (\<forall>t \<in> set nows. t \<le> now + 60000)"
  then show "fst (rate_calls addr (now # nows) s) =
      replicate (min 100 (Suc (length nows))) False @ replicate (length nows - 99) True"
    using rate_calls_window(1) by blast
  from a show "rateLimits (snd (rate_calls addr (now # nows) s)) addr =
      Some \<lparr>count = min 100 (Suc (length nows)), resetTime = now + 60000\<rparr>"
    using rate_calls_window(2) by blast
next
  assume a: "window_over s addr now \<and> (\<forall>t \<in> set nows. t \<le> now + 60000) \<and> length nows = 100"
  then have "fst (rate_calls addr (now # nows) s) =
      replicate (min 100 (Suc (length nows))) False @ replicate (length nows - 99) True"
    using rate_calls_window(1) by blast
  with a show "fst (rate_calls addr (now # nows) s) = replicate 100 False @ [True]"
    by simp
next
  assume "rateLimits s addr = Some limit \<and> now \<le> resetTime limit \<and> 100 \<le> count limit"
  then show "isRateLimited addr now s = (True, s)"
    by (simp add: isRateLimited_rejected)
next
  assume "counts_bounded s"
  then show "counts_bounded (snd (isRateLimited addr now s))"
    by (rule counts_bounded_isRateLimited)
qed

lemma window_over_init: "window_over init_state addr now"
  by (simp add: window_over_def init_state_def)

lemma counts_bounded_init: "counts_bounded init_state"
  by (simp add: counts_bounded_def init_state_def)

theorem isRateLimited_fixed_window_witness:
  "window_over init_state ''10.0.0.1'' 1000 \<and>
   fst (rate_calls ''10.0.0.1'' (1000 # replicate 100 1000) init_state) =
     replicate 100 False @ [True] \<and>
   rateLimits (snd (rate_calls ''10.0.0.1'' (1000 # replicate 100 1000) init_state)) ''10.0.0.1'' =
     Some \<lparr>count = 100, resetTime = 61000\<rparr> \<and>
   isRateLimited ''10.0.0.1'' 61000
     (snd (rate_calls ''10.0.0.1'' (1000 # replicate 100 1000) init_state)) =
     (True, snd (rate_calls ''10.0.0.1'' (1000 # replicate 100 1000) init_state)) \<and>
   fst (isRateLimited ''10.0.0.1'' 61001
     (snd (rate_calls ''10.0.0.1'' (1000 # replicate 100 1000) init_state))) = False \<and>
   rateLimits (snd (isRateLimited ''10.0.0.1'' 61001
     (snd (rate_calls ''10.0.0.1'' (1000 # replicate 100 1000) init_state)))) ''10.0.0.1'' =
     Some \<lparr>count = 1, resetTime = 121001\<rparr> \<and>
   counts_bounded init_state \<and>
   counts_bounded (snd (isRateLimited ''10.0.0.1'' 1000 init_state))"
proof -
  let ?s = "snd (rate_calls ''10.0.0.1'' (1000 # replicate 100 1000) init_state)"
  have over: "window_over init_state ''10.0.0.1'' 1000" by (rule window_over_init)
  have within: "\<forall>t \<in> set (replicate 100 (1000::nat)). t \<le> 1000 + 60000" by simp
  have len: "length (replicate 100 (1000::nat)) = 100" by simp
  have bounded: "counts_bounded init_state" by (rule counts_bounded_init)
  note run = isRateLimited_fixed_window [where s = init_state and addr = "''10.0.0.1''"
      and now = 1000 and nows = "replicate 100 1000"
      and limit = "\<lparr>count = 100, resetTime = 61000\<rparr>"]
  from run bounded
  have bounded': "counts_bounded (snd (isRateLimited ''10.0.0.1'' 1000 init_state))"
    by blast
  from run over within len
  have flags: "fst (rate_calls ''10.0.0.1'' (1000 # replicate 100 1000) init_state) =
      replicate 100 False @ [True]"
    and bucket: "rateLimits ?s ''10.0.0.1'' = Some \<lparr>count = 100, resetTime = 61000\<rparr>"
    by (simp_all del: rate_calls.simps)
  from bucket have over': "window_over ?s ''10.0.0.1'' 61001"
    by (simp add: window_over_def)
  from bucket
    isRateLimited_fixed_window [where s = ?s and addr = "''10.0.0.1''" and now = 61000
      and limit = "\<lparr>count = 100, resetTime = 61000\<rparr>"]
  have rejected: "isRateLimited ''10.0.0.1'' 61000 ?s = (True, ?s)"
    by (simp del: rate_calls.simps)
  from over' isRateLimited_fixed_window [where s = ?s and addr = "''10.0.0.1''" and now = 61001]
  have "isRateLimited ''10.0.0.1'' 61001 ?s =
      (False, ?s\<lparr>rateLimits := (rateLimits ?s)(''10.0.0.1'' \<mapsto> \<lparr>count = 1, resetTime = 61001 + 60000\<rparr>)\<rparr>)"
    by blast
  then have again: "fst (isRateLimited ''10.0.0.1'' 61001 ?s) = False"
    "rateLimits (snd (isRateLimited ''10.0.0.1'' 61001 ?s)) ''10.0.0.1'' =
      Some \<lparr>count = 1, resetTime = 121001\<rparr>"
    by (simp_all del: rate_calls.simps)
  from over flags bucket rejected again bounded bounded' show ?thesis by blast
qed

section \<open>Unknown senders, and the two routers\<close>

text \<open>
  C8. An event whose sender id has no entry in the registry is dropped: the router
  returns normally (no exception), sends nothing, and leaves the registry, the
  directory and the rate-limit buckets as they were, whatever the event is.
\<close>

theorem unknown_sender_dropped:
  "clients s clientId = None \<longrightarrow>
     handleWebSocketMessage clientId m now s = Inr s \<and>
     handleWebSocketMessage_deploy clientId m now s = Inr s"
  by (simp add: handleWebSocketMessage_def handleWebSocketMessage_deploy_def)

theorem unknown_sender_dropped_witness:
  "clients (three_clients bob) ''D'' = None \<and>
   handleWebSocketMessage ''D'' [''type'' \<mapsto> JStr ''chat'', ''message'' \<mapsto> JStr ''hi''] 5
     (three_clients bob) = Inr (three_clients bob) \<and>
   handleWebSocketMessage_deploy ''D'' [''type'' \<mapsto> JStr ''chat'', ''message'' \<mapsto> JStr ''hi''] 5
     (three_clients bob) = Inr (three_clients bob) \<and>
   sent (three_clients bob) = []"
proof -
  have absent: "clients (three_clients bob) ''D'' = None"
    by (simp add: three_clients_def)
  from absent
    unknown_sender_dropped [where s = "three_clients bob" and clientId = "''D''" and now = 5
      and m = "[''type'' \<mapsto> JStr ''chat'', ''message'' \<mapsto> JStr ''hi'']"]
  show ?thesis by (simp add: three_clients_def)
qed

lemma typed_sends_socket_send [simp]:
  "typed_sends (socket_send c f s) = typed_sends s @ [(userId c, frame_type f)]"
  by (simp add: typed_sends_def)

lemma typed_sends_broadcastToRoom:
  "frame_type f = frame_type g \<Longrightarrow>
   typed_sends (broadcastToRoom rm ex f s) = typed_sends (broadcastToRoom rm ex g s)"
proof -
  have loop: "typed_sends (broadcast_loop ids ex f s) = typed_sends (broadcast_loop ids ex g s')"
    if "frame_type f = frame_type g" "typed_sends s = typed_sends s'" "clients s = clients s'"
    for ids s s'
    using that
  proof (induction ids arbitrary: s s')
    case Nil
    then show ?case by simp
  next
    case (Cons k ids)
    show ?case
    proof (cases "Some k \<noteq> ex \<and> (\<exists>c. clients s k = Some c \<and> readyState (socket c) = OPEN)")
      case True
      then obtain c where c: "clients s k = Some c" "readyState (socket c) = OPEN" by blast
      have "typed_sends (broadcast_loop ids ex f (socket_send c f s)) =
            typed_sends (broadcast_loop ids ex g (socket_send c g s'))"
        using Cons.prems by (intro Cons.IH) simp_all
      with True c Cons.prems show ?thesis by simp
    next
      case False
      then have "broadcast_loop (k # ids) ex f s = broadcast_loop ids ex f s"
        "broadcast_loop (k # ids) ex g s' = broadcast_loop ids ex g s'"
        using Cons.prems by (auto split: option.splits)
      with Cons show ?thesis by simp
    qed
  qed
  assume "frame_type f = frame_type g"
  then show ?thesis
    by (auto simp: broadcastToRoom_def loop split: option.splits)
qed

lemma observe_Inr [simp]: "observe (Inr s) = Inr (typed_sends s)"
  and observe_Inl [simp]: "observe (Inl e) = Inl e"
  by (simp_all add: observe_def)

lemma observe_bingo:
  "typed_sends (handleBingoNumber c m now s) = typed_sends (handleBingoNumber_deploy c m now s)"
  by (auto simp: handleBingoNumber_def handleBingoNumber_deploy_def
      intro: typed_sends_broadcastToRoom split: jsval.splits)

lemma observe_winner:
  "typed_sends (handleWinner c m now s) = typed_sends (handleWinner_deploy c m now s)"
  by (auto simp: handleWinner_def handleWinner_deploy_def intro: typed_sends_broadcastToRoom)

lemma observe_chat:
  "observe (handleChatMessage c m now s) = observe (handleChatMessage_deploy c m now s)"
  by (auto simp: handleChatMessage_def handleChatMessage_deploy_def sanitize_value_def
      sanitize_value_deploy_def sanitizeInput_deploy_eq
      intro: typed_sends_broadcastToRoom split: jsval.splits sum.splits)

lemma observe_users:
  "typed_sends (sendRoomUsers c now s) = typed_sends (sendRoomUsers_deploy c now s)"
  by (simp add: sendRoomUsers_def sendRoomUsers_deploy_def)

text \<open>
  C9. For every state and every event, the router of \<^verbatim>\<open>server.ts\<close> and the router of the
  deployment variant take the same decision: both raise or both return, and when they
  return they have sent frames of the same types to the same connections in the same
  order (an error frame where the other sends an error frame, a broadcast where the
  other broadcasts).
\<close>

theorem routers_agree:
  "observe (handleWebSocketMessage clientId m now s) =
   observe (handleWebSocketMessage_deploy clientId m now s)"
proof (cases "clients s clientId")
  case None
  then show ?thesis
    by (simp add: handleWebSocketMessage_def handleWebSocketMessage_deploy_def)
next
  case (Some c)
  then show ?thesis
    by (simp add: handleWebSocketMessage_def handleWebSocketMessage_deploy_def Let_def
        observe_bingo observe_winner observe_chat observe_users)
qed

lemma example_bingo_server:
  "handleWebSocketMessage ''A'' [''type'' \<mapsto> JStr ''bingo-number'', ''number'' \<mapsto> JNum (Num 7)] 5
     (three_clients bob) =
   Inr ((three_clients bob)\<lparr>sent := [(''B'', BingoNumber (Num 7) ''Alice'' (IsoString 5))]\<rparr>)"
  by (simp add: handleWebSocketMessage_def handleBingoNumber_def property_def broadcastToRoom_def
      three_clients_def alice_def bob_def socket_send_def)

theorem routers_agree_witness:
  "observe (handleWebSocketMessage_deploy ''A''
     [''type'' \<mapsto> JStr ''bingo-number'', ''number'' \<mapsto> JNum (Num 7)] 5 (three_clients bob)) =
   Inr [(''B'', JStr ''bingo-number'')]"
  using routers_agree [where clientId = "''A''" and now = 5 and s = "three_clients bob"
      and m = "[''type'' \<mapsto> JStr ''bingo-number'', ''number'' \<mapsto> JNum (Num 7)]", symmetric]
  by (simp add: example_bingo_server typed_sends_def)

section \<open>Number calls\<close>

lemma bob_not_open_yet_eq:
  "bob_not_open_yet =
     \<lparr>clients = [''A'' \<mapsto> alice_joining\<lparr>socket := \<lparr>readyState = OPEN\<rparr>\<rparr>,
                 ''B'' \<mapsto> \<lparr>socket = \<lparr>readyState = CONNECTING\<rparr>, userId = ''B'', name = ''Bob'',
                          room = ''r1'', role = ''player'', joinedAt = 1, ip = ''10.0.0.9''\<rparr>],
      rooms = [''r1'' \<mapsto> \<lparr>r_clients = [''A'', ''B''], r_name = ''r1'', r_createdAt = 0\<rparr>],
      clientRooms = [''A'' \<mapsto> ''r1'', ''B'' \<mapsto> ''r1''],
      rateLimits = Map.empty,
      sent = [(''A'', Welcome ''Welcome to r1!'' ''A'' (IsoString 0))]\<rparr>"
  by (simp add: bob_not_open_yet_def handleWebSocket_def onopen_def Let_def init_state_def
      request_of_def param_or_def sanitizeInput_def set_add_def broadcastToRoom_def
      getRoomUsers_def socket_send_def alice_joining_def)

lemma members_bob_not_open_yet: "members ''r1'' bob_not_open_yet = [''A'', ''B'']"
  by (simp add: bob_not_open_yet_eq members_def)

lemma well_formed_three_clients: "well_formed (three_clients bob)"
  by (auto simp: well_formed_def three_clients_def alice_def bob_def carol_def split: if_splits)

lemma consistent_three_clients: "consistent (three_clients bob)"
  by (auto simp: consistent_def members_def three_clients_def alice_def bob_def carol_def
      split: if_splits)

text \<open>The recipients of a broadcast: the members of the room that are not excluded and
  whose socket is open, each once.\<close>

lemma broadcastToRoom_recipients:
  assumes "well_formed s"
  shows "\<exists>ks. broadcastToRoom rm ex f s = s\<lparr>sent := sent s @ map (\<lambda>k. (k, f)) ks\<rparr> \<and>
     distinct ks \<and> set ks = {k \<in> set (members rm s). Some k \<noteq> ex \<and> is_open s k}"
proof -
  let ?ks = "filter (\<lambda>k. Some k \<noteq> ex \<and> is_open s k) (members rm s)"
  have "broadcastToRoom rm ex f s = s\<lparr>sent := sent s @ map (\<lambda>k. (k, f)) ?ks\<rparr>"
    using assms by (rule broadcastToRoom_eq)
  moreover have "distinct ?ks"
    using assms by (simp add: distinct_members)
  moreover have "set ?ks = {k \<in> set (members rm s). Some k \<noteq> ex \<and> is_open s k}"
    by auto
  ultimately show ?thesis by blast
qed

lemma well_formed_userId: "well_formed s \<Longrightarrow> clients s k = Some c \<Longrightarrow> userId c = k"
  by (simp add: well_formed_def)

lemma socket_send_eq: "socket_send c f s = s\<lparr>sent := sent s @ [(userId c, f)]\<rparr>"
  by (simp add: socket_send_def)

lemma handleBingoNumber_invalid:
  assumes "(\<forall>n. property m ''number'' \<noteq> JNum n) \<or>
      (\<exists>n. property m ''number'' = JNum n \<and> (js_lt n 1 \<or> js_gt n 90))"
  shows "handleBingoNumber c m now s = s\<lparr>sent := sent s @ [(userId c, Error ''Invalid bingo number'')]\<rparr>"
  using assms
  by (auto simp: handleBingoNumber_def socket_send_eq split: jsval.splits)

lemma handleBingoNumber_valid:
  assumes "property m ''number'' = JNum (Num (of_int i))" "1 \<le> i" "i \<le> 90"
  shows "handleBingoNumber c m now s =
     broadcastToRoom (room c) (Some (userId c)) (BingoNumber (Num (of_int i)) (name c) (IsoString now)) s"
  using assms by (simp add: handleBingoNumber_def)

text \<open>
  C2, as the code has it. For a \<^verbatim>\<open>bingo-number\<close> event of a registered sender: when the
  \<^verbatim>\<open>number\<close> field is not a number, or is a number below 1 or above 90, the sender's
  socket is sent exactly one error frame and nothing else is sent; when it is an integer
  from 1 to 90, the frame with the number and the caller's display name is sent exactly
  once to every member of the sender's room, other than the sender, whose socket is open,
  and to nobody else.
\<close>

theorem bingo_number_routing:
  "(well_formed s \<and> clients s clientId = Some c \<and> property m ''type'' = JStr ''bingo-number'' \<and>
    ((\<forall>n. property m ''number'' \<noteq> JNum n) \<or>
     (\<exists>n. property m ''number'' = JNum n \<and> (js_lt n 1 \<or> js_gt n 90))) \<longrightarrow>
      handleWebSocketMessage clientId m now s =
        Inr (s\<lparr>sent := sent s @ [(clientId, Error ''Invalid bingo number'')]\<rparr>)) \<and>
   (well_formed s \<and> clients s clientId = Some c \<and> property m ''type'' = JStr ''bingo-number'' \<and>
    property m ''number'' = JNum (Num (of_int i)) \<and> 1 \<le> i \<and> i \<le> 90 \<longrightarrow>
      (\<exists>ks. handleWebSocketMessage clientId m now s =
          Inr (s\<lparr>sent := sent s @
            map (\<lambda>k. (k, BingoNumber (Num (of_int i)) (name c) (IsoString now))) ks\<rparr>) \<and>
        distinct ks \<and>
        set ks = {k \<in> set (members (room c) s). k \<noteq> clientId \<and> is_open s k}))"
proof (intro conjI impI)
  assume a: "well_formed s \<and> clients s clientId = Some c \<and>
    property m ''type'' = JStr ''bingo-number'' \<and>
    ((\<forall>n. property m ''number'' \<noteq> JNum n) \<or>
     (\<exists>n. property m ''number'' = JNum n \<and> (js_lt n 1 \<or> js_gt n 90)))"
  then have uid: "userId c = clientId" using well_formed_userId by blast
  from a have "handleWebSocketMessage clientId m now s = Inr (handleBingoNumber c m now s)"
    by (simp add: handleWebSocketMessage_def)
  with a uid show "handleWebSocketMessage clientId m now s =
      Inr (s\<lparr>sent := sent s @ [(clientId, Error ''Invalid bingo number'')]\<rparr>)"
    by (simp add: handleBingoNumber_invalid)
next
  assume a: "well_formed s \<and> clients s clientId = Some c \<and>
    property m ''type'' = JStr ''bingo-number'' \<and>
    property m ''number'' = JNum (Num (of_int i)) \<and> 1 \<le> i \<and> i \<le> 90"
  then have uid: "userId c = clientId" using well_formed_userId by blast
  from a have "handleWebSocketMessage clientId m now s = Inr (handleBingoNumber c m now s)"
    by (simp add: handleWebSocketMessage_def)
  with a uid have run: "handleWebSocketMessage clientId m now s =
      Inr (broadcastToRoom (room c) (Some clientId)
        (BingoNumber (Num (of_int i)) (name c) (IsoString now)) s)"
    by (simp add: handleBingoNumber_valid)
  from a broadcastToRoom_recipients [of s "room c" "Some clientId"
      "BingoNumber (Num (of_int i)) (name c) (IsoString now)"]
  obtain ks where "broadcastToRoom (room c) (Some clientId)
        (BingoNumber (Num (of_int i)) (name c) (IsoString now)) s =
        s\<lparr>sent := sent s @ map (\<lambda>k. (k, BingoNumber (Num (of_int i)) (name c) (IsoString now))) ks\<rparr>"
      "distinct ks"
      "set ks = {k \<in> set (members (room c) s). Some k \<noteq> Some clientId \<and> is_open s k}"
    by blast
  with run show "\<exists>ks. handleWebSocketMessage clientId m now s =
          Inr (s\<lparr>sent := sent s @
            map (\<lambda>k. (k, BingoNumber (Num (of_int i)) (name c) (IsoString now))) ks\<rparr>) \<and>
        distinct ks \<and>
        set ks = {k \<in> set (members (room c) s). k \<noteq> clientId \<and> is_open s k}"
    by auto
qed

text \<open>
  The claim as stated fails where a member of the room has no open socket. Bob is a
  member of room r1 and his socket is still connecting: Alice's number 5, which is valid,
  is sent to nobody, Bob included.
\<close>

theorem bingo_number_counterexample:
  "well_formed bob_not_open_yet \<and> consistent bob_not_open_yet \<and>
   members ''r1'' bob_not_open_yet = [''A'', ''B''] \<and>
   handleWebSocketMessage ''A'' (bingo_event (JNum (Num 5))) 7
     bob_not_open_yet = Inr bob_not_open_yet"
  by (simp add: members_bob_not_open_yet well_formed_bob_not_open_yet consistent_bob_not_open_yet)
    (simp add: bob_not_open_yet_eq handleWebSocketMessage_def handleBingoNumber_def property_def bingo_event_def
      broadcastToRoom_def alice_joining_def)

text \<open>The range check does not ask for an integer: a fraction between 1 and 90 passes
  it and is broadcast.\<close>

lemma bingo_fraction_broadcast:
  "handleWebSocketMessage ''A'' (bingo_event (JNum (Num (3 / 2)))) 5
     (three_clients bob) =
   Inr ((three_clients bob)\<lparr>sent := [(''B'', BingoNumber (Num (3 / 2)) ''Alice'' (IsoString 5))]\<rparr>)"
  by (simp add: handleWebSocketMessage_def handleBingoNumber_def property_def bingo_event_def broadcastToRoom_def
      three_clients_def alice_def bob_def socket_send_def)

lemma three_clients_fields:
  "clients (three_clients b) ''A'' = Some alice" "clients (three_clients b) ''B'' = Some b"
  "clients (three_clients b) ''C'' = Some carol"
  "members ''r1'' (three_clients b) = [''A'', ''B'']" "members ''r2'' (three_clients b) = [''C'']"
  "sent (three_clients b) = []"
  by (simp_all add: three_clients_def members_def)

lemma three_clients_others_of_A:
  "{k \<in> set (members ''r1'' (three_clients bob)). k \<noteq> ''A'' \<and> is_open (three_clients bob) k} = {''B''}"
  by (auto simp: three_clients_fields is_open_def bob_def)

lemma three_clients_open_in_r1:
  "{k \<in> set (members ''r1'' (three_clients bob)). is_open (three_clients bob) k} = {''A'', ''B''}"
  by (auto simp: three_clients_fields is_open_def bob_def alice_def)

lemma bingo_event_fields:
  "property (bingo_event v) ''type'' = JStr ''bingo-number''"
  "property (bingo_event v) ''number'' = v"
  by (simp_all add: bingo_event_def property_def)

theorem bingo_number_routing_witness:
  "well_formed (three_clients bob) \<and> clients (three_clients bob) ''A'' = Some alice \<and>
   handleWebSocketMessage ''A'' (bingo_event (JNum (Num 0))) 5 (three_clients bob) =
     Inr ((three_clients bob)\<lparr>sent := [(''A'', Error ''Invalid bingo number'')]\<rparr>) \<and>
   handleWebSocketMessage ''A'' (bingo_event (JNum (Num 91))) 5 (three_clients bob) =
     Inr ((three_clients bob)\<lparr>sent := [(''A'', Error ''Invalid bingo number'')]\<rparr>) \<and>
   handleWebSocketMessage ''A'' (bingo_event (JStr ''seven'')) 5 (three_clients bob) =
     Inr ((three_clients bob)\<lparr>sent := [(''A'', Error ''Invalid bingo number'')]\<rparr>) \<and>
   (\<exists>ks. handleWebSocketMessage ''A'' (bingo_event (JNum (Num 1))) 5 (three_clients bob) =
       Inr ((three_clients bob)\<lparr>sent := map (\<lambda>k. (k, BingoNumber (Num 1) ''Alice'' (IsoString 5))) ks\<rparr>) \<and>
     distinct ks \<and> set ks = {''B''}) \<and>
   (\<exists>ks. handleWebSocketMessage ''A'' (bingo_event (JNum (Num 90))) 5 (three_clients bob) =
       Inr ((three_clients bob)\<lparr>sent := map (\<lambda>k. (k, BingoNumber (Num 90) ''Alice'' (IsoString 5))) ks\<rparr>) \<and>
     distinct ks \<and> set ks = {''B''})"
proof -
  have wf: "well_formed (three_clients bob)" by (rule well_formed_three_clients)
  have reg: "clients (three_clients bob) ''A'' = Some alice" by (rule three_clients_fields)
  have zero: "handleWebSocketMessage ''A'' (bingo_event (JNum (Num 0))) 5 (three_clients bob) =
     Inr ((three_clients bob)\<lparr>sent := [(''A'', Error ''Invalid bingo number'')]\<rparr>)"
    using wf reg
      bingo_number_routing [where s = "three_clients bob" and clientId = "''A''" and c = alice
        and m = "bingo_event (JNum (Num 0))" and now = 5]
    by (simp add: bingo_event_fields three_clients_fields)
  have over: "handleWebSocketMessage ''A'' (bingo_event (JNum (Num 91))) 5 (three_clients bob) =
     Inr ((three_clients bob)\<lparr>sent := [(''A'', Error ''Invalid bingo number'')]\<rparr>)"
    using wf reg
      bingo_number_routing [where s = "three_clients bob" and clientId = "''A''" and c = alice
        and m = "bingo_event (JNum (Num 91))" and now = 5]
    by (simp add: bingo_event_fields three_clients_fields)
  have nonnum: "handleWebSocketMessage ''A'' (bingo_event (JStr ''seven'')) 5 (three_clients bob) =
     Inr ((three_clients bob)\<lparr>sent := [(''A'', Error ''Invalid bingo number'')]\<rparr>)"
    using wf reg
      bingo_number_routing [where s = "three_clients bob" and clientId = "''A''" and c = alice
        and m = "bingo_event (JStr ''seven'')" and now = 5]
    by (simp add: bingo_event_fields three_clients_fields)
  have one: "\<exists>ks. handleWebSocketMessage ''A'' (bingo_event (JNum (Num 1))) 5 (three_clients bob) =
       Inr ((three_clients bob)\<lparr>sent := map (\<lambda>k. (k, BingoNumber (Num 1) ''Alice'' (IsoString 5))) ks\<rparr>) \<and>
     distinct ks \<and> set ks = {''B''}"
    using wf reg
      bingo_number_routing [where s = "three_clients bob" and clientId = "''A''" and c = alice
        and m = "bingo_event (JNum (Num 1))" and now = 5 and i = 1]
    by (simp add: bingo_event_fields three_clients_fields(1,6) three_clients_others_of_A alice_def)
  have ninety: "\<exists>ks. handleWebSocketMessage ''A'' (bingo_event (JNum (Num 90))) 5 (three_clients bob) =
       Inr ((three_clients bob)\<lparr>sent := map (\<lambda>k. (k, BingoNumber (Num 90) ''Alice'' (IsoString 5))) ks\<rparr>) \<and>
     distinct ks \<and> set ks = {''B''}"
    using wf reg
      bingo_number_routing [where s = "three_clients bob" and clientId = "''A''" and c = alice
        and m = "bingo_event (JNum (Num 90))" and now = 5 and i = 90]
    by (simp add: bingo_event_fields three_clients_fields(1,6) three_clients_others_of_A alice_def)
  from wf reg zero over nonnum one ninety show ?thesis by blast
qed

section \<open>Chat\<close>

lemma chat_event_fields:
  "property (chat_event v) ''type'' = JStr ''chat''"
  "property (chat_event v) ''message'' = v"
  by (simp_all add: chat_event_def property_def)

lemma handleChatMessage_string:
  assumes "property m ''message'' = JStr str"
  shows "handleChatMessage c m now s =
     (if length (sanitizeInput str) > 500
      then Inr (s\<lparr>sent := sent s @ [(userId c, Error ''Message too long'')]\<rparr>)
      else Inr (broadcastToRoom (room c) None
             (Chat (userId c) (name c) (sanitizeInput str) (IsoString now)) s))"
proof (cases "str = []")
  case True
  with assms show ?thesis
    by (simp add: handleChatMessage_def js_or_def sanitize_value_def sanitizeInput_def)
next
  case False
  with assms show ?thesis
    by (simp add: handleChatMessage_def js_or_def sanitize_value_def socket_send_eq)
qed

lemma handleChatMessage_falsy:
  assumes "\<not> truthy (property m ''message'')"
  shows "handleChatMessage c m now s =
     Inr (broadcastToRoom (room c) None (Chat (userId c) (name c) [] (IsoString now)) s)"
  using assms
  by (simp add: handleChatMessage_def js_or_def sanitize_value_def sanitizeInput_def)

lemma sender_among_open_members:
  assumes "consistent s" "clients s clientId = Some c" "is_open s clientId"
  shows "clientId \<in> {k \<in> set (members (room c) s). is_open s k}"
  using assms unfolding consistent_def by blast

text \<open>
  C3, as the code has it. The text of a chat event is escaped first and the limit of 500
  is on the escaped text. When the escaped text is longer than 500 characters, which
  it is for every text longer than 500 characters, the sender is sent exactly one
  error frame and nothing is broadcast. When the escaped text has at most 500 characters,
  as any text of at most 500 characters without \<open><\<close>, \<open>>\<close> and quotes has, the escaped text
  is sent exactly once to every member of the sender's room whose socket is open; the
  sender is one of them when the registry is consistent and the sender's socket is open.
  An event without a text (the field is absent or falsy) is broadcast with the empty text.
\<close>

theorem chat_routing:
  "(well_formed s \<and> clients s clientId = Some c \<and> property m ''type'' = JStr ''chat'' \<and>
    property m ''message'' = JStr str \<and> 500 < length (sanitizeInput str) \<longrightarrow>
      handleWebSocketMessage clientId m now s =
        Inr (s\<lparr>sent := sent s @ [(clientId, Error ''Message too long'')]\<rparr>)) \<and>
   (500 < length str \<longrightarrow> 500 < length (sanitizeInput str)) \<and>
   (well_formed s \<and> clients s clientId = Some c \<and> property m ''type'' = JStr ''chat'' \<and>
    property m ''message'' = JStr str \<and> length (sanitizeInput str) \<le> 500 \<longrightarrow>
      (\<exists>ks. handleWebSocketMessage clientId m now s =
          Inr (s\<lparr>sent := sent s @
            map (\<lambda>k. (k, Chat clientId (name c) (sanitizeInput str) (IsoString now))) ks\<rparr>) \<and>
        distinct ks \<and>
        set ks = {k \<in> set (members (room c) s). is_open s k})) \<and>
   (well_formed s \<and> clients s clientId = Some c \<and> property m ''type'' = JStr ''chat'' \<and>
    \<not> truthy (property m ''message'') \<longrightarrow>
      (\<exists>ks. handleWebSocketMessage clientId m now s =
          Inr (s\<lparr>sent := sent s @ map (\<lambda>k. (k, Chat clientId (name c) [] (IsoString now))) ks\<rparr>) \<and>
        distinct ks \<and>
        set ks = {k \<in> set (members (room c) s). is_open s k})) \<and>
   (length str \<le> 500 \<and> set str \<inter> specials = {} \<longrightarrow>
      sanitizeInput str = str \<and> length (sanitizeInput str) \<le> 500) \<and>
   (consistent s \<and> clients s clientId = Some c \<and> is_open s clientId \<longrightarrow>
      clientId \<in> {k \<in> set (members (room c) s). is_open s k})"
proof (intro conjI impI)
  assume a: "well_formed s \<and> clients s clientId = Some c \<and>
    property m ''type'' = JStr ''chat'' \<and> property m ''message'' = JStr str \<and>
    500 < length (sanitizeInput str)"
  then have uid: "userId c = clientId" using well_formed_userId by blast
  from a have "handleWebSocketMessage clientId m now s = handleChatMessage c m now s"
    by (simp add: handleWebSocketMessage_def)
  with a uid show "handleWebSocketMessage clientId m now s =
      Inr (s\<lparr>sent := sent s @ [(clientId, Error ''Message too long'')]\<rparr>)"
    by (simp add: handleChatMessage_string)
next
  assume "500 < length str"
  then show "500 < length (sanitizeInput str)"
    using length_sanitizeInput [of str] by simp
next
  assume a: "well_formed s \<and> clients s clientId = Some c \<and>
    property m ''type'' = JStr ''chat'' \<and> property m ''message'' = JStr str \<and>
    length (sanitizeInput str) \<le> 500"
  then have uid: "userId c = clientId" using well_formed_userId by blast
  from a have "handleWebSocketMessage clientId m now s = handleChatMessage c m now s"
    by (simp add: handleWebSocketMessage_def)
  with a uid have run: "handleWebSocketMessage clientId m now s =
      Inr (broadcastToRoom (room c) None
        (Chat clientId (name c) (sanitizeInput str) (IsoString now)) s)"
    by (simp add: handleChatMessage_string)
  from a broadcastToRoom_recipients [of s "room c" None
      "Chat clientId (name c) (sanitizeInput str) (IsoString now)"]
  obtain ks where "broadcastToRoom (room c) None
        (Chat clientId (name c) (sanitizeInput str) (IsoString now)) s =
        s\<lparr>sent := sent s @ map (\<lambda>k. (k, Chat clientId (name c) (sanitizeInput str) (IsoString now))) ks\<rparr>"
      "distinct ks"
      "set ks = {k \<in> set (members (room c) s). Some k \<noteq> None \<and> is_open s k}"
    by blast
  with run show "\<exists>ks. handleWebSocketMessage clientId m now s =
          Inr (s\<lparr>sent := sent s @
            map (\<lambda>k. (k, Chat clientId (name c) (sanitizeInput str) (IsoString now))) ks\<rparr>) \<and>
        distinct ks \<and>
        set ks = {k \<in> set (members (room c) s). is_open s k}"
    by auto
next
  assume a: "well_formed s \<and> clients s clientId = Some c \<and>
    property m ''type'' = JStr ''chat'' \<and> \<not> truthy (property m ''message'')"
  then have uid: "userId c = clientId" using well_formed_userId by blast
  from a have "handleWebSocketMessage clientId m now s = handleChatMessage c m now s"
    by (simp add: handleWebSocketMessage_def)
  with a uid have run: "handleWebSocketMessage clientId m now s =
      Inr (broadcastToRoom (room c) None (Chat clientId (name c) [] (IsoString now)) s)"
    by (simp add: handleChatMessage_falsy)
  from a broadcastToRoom_recipients [of s "room c" None
      "Chat clientId (name c) [] (IsoString now)"]
  obtain ks where "broadcastToRoom (room c) None (Chat clientId (name c) [] (IsoString now)) s =
        s\<lparr>sent := sent s @ map (\<lambda>k. (k, Chat clientId (name c) [] (IsoString now))) ks\<rparr>"
      "distinct ks"
      "set ks = {k \<in> set (members (room c) s). Some k \<noteq> None \<and> is_open s k}"
    by blast
  with run show "\<exists>ks. handleWebSocketMessage clientId m now s =
          Inr (s\<lparr>sent := sent s @ map (\<lambda>k. (k, Chat clientId (name c) [] (IsoString now))) ks\<rparr>) \<and>
        distinct ks \<and>
        set ks = {k \<in> set (members (room c) s). is_open s k}"
    by auto
next
  assume a: "length str \<le> 500 \<and> set str \<inter> specials = {}"
  then show "sanitizeInput str = str" by (simp add: sanitizeInput_fixed)
  with a show "length (sanitizeInput str) \<le> 500" by simp
next
  assume "consistent s \<and> clients s clientId = Some c \<and> is_open s clientId"
  then show "clientId \<in> {k \<in> set (members (room c) s). is_open s k}"
    using sender_among_open_members by blast
qed

lemma length_concat_replicate: "length (concat (replicate n xs)) = n * length xs"
  by (induction n) simp_all

text \<open>
  The claim as stated fails for a text of 500 characters that the escaping lengthens. All
  three sockets are open and Alice sends 500 times \<open><\<close>: the escaped text has 2000
  characters, Alice is sent the error frame and nobody is sent the chat.
\<close>

theorem chat_counterexample:
  "length (replicate 500 (CHR ''<'')) = 500 \<and>
   handleWebSocketMessage ''A'' (chat_event (JStr (replicate 500 (CHR ''<'')))) 7 (three_clients bob) =
     Inr ((three_clients bob)\<lparr>sent := [(''A'', Error ''Message too long'')]\<rparr>)"
proof -
  have "length (sanitizeInput (replicate 500 (CHR ''<''))) = 2000"
    by (simp add: sanitizeInput_replicate_lt length_concat_replicate)
  then show ?thesis
    by (simp add: handleWebSocketMessage_def chat_event_fields handleChatMessage_string
        three_clients_fields alice_def)
qed

theorem chat_routing_witness:
  "well_formed (three_clients bob) \<and> consistent (three_clients bob) \<and>
   clients (three_clients bob) ''A'' = Some alice \<and> is_open (three_clients bob) ''A'' \<and>
   handleWebSocketMessage ''A'' (chat_event (JStr (replicate 501 (CHR ''a'')))) 7 (three_clients bob) =
     Inr ((three_clients bob)\<lparr>sent := [(''A'', Error ''Message too long'')]\<rparr>) \<and>
   (\<exists>ks. handleWebSocketMessage ''A'' (chat_event (JStr (replicate 500 (CHR ''a'')))) 7
       (three_clients bob) =
       Inr ((three_clients bob)\<lparr>sent :=
         map (\<lambda>k. (k, Chat ''A'' ''Alice'' (replicate 500 (CHR ''a'')) (IsoString 7))) ks\<rparr>) \<and>
     distinct ks \<and> set ks = {''A'', ''B''}) \<and>
   ''A'' \<in> {k \<in> set (members ''r1'' (three_clients bob)). is_open (three_clients bob) k}"
proof -
  have wf: "well_formed (three_clients bob)" by (rule well_formed_three_clients)
  have cons: "consistent (three_clients bob)" by (rule consistent_three_clients)
  have reg: "clients (three_clients bob) ''A'' = Some alice" by (rule three_clients_fields)
  have opn: "is_open (three_clients bob) ''A''"
    by (simp add: is_open_def three_clients_fields alice_def)
  have plain: "set (replicate 500 (CHR ''a'')) \<inter> specials = {}"
    by (simp add: specials_def)
  note long = chat_routing [where s = "three_clients bob" and clientId = "''A''" and c = alice
      and m = "chat_event (JStr (replicate 501 (CHR ''a'')))" and now = 7
      and str = "replicate 501 (CHR ''a'')"]
  from long have "500 < length (sanitizeInput (replicate 501 (CHR ''a'')))" by simp
  with long wf reg
  have too_long: "handleWebSocketMessage ''A'' (chat_event (JStr (replicate 501 (CHR ''a'')))) 7
      (three_clients bob) =
      Inr ((three_clients bob)\<lparr>sent := [(''A'', Error ''Message too long'')]\<rparr>)"
    by (simp add: chat_event_fields three_clients_fields(1,6))
  note short = chat_routing [where s = "three_clients bob" and clientId = "''A''" and c = alice
      and m = "chat_event (JStr (replicate 500 (CHR ''a'')))" and now = 7
      and str = "replicate 500 (CHR ''a'')"]
  from short plain have fixed: "sanitizeInput (replicate 500 (CHR ''a'')) = replicate 500 (CHR ''a'')"
    by simp
  with short wf reg
  have fits: "\<exists>ks. handleWebSocketMessage ''A'' (chat_event (JStr (replicate 500 (CHR ''a'')))) 7
       (three_clients bob) =
       Inr ((three_clients bob)\<lparr>sent :=
         map (\<lambda>k. (k, Chat ''A'' ''Alice'' (replicate 500 (CHR ''a'')) (IsoString 7))) ks\<rparr>) \<and>
     distinct ks \<and> set ks = {''A'', ''B''}"
    by (simp add: chat_event_fields three_clients_fields(1,6) three_clients_open_in_r1 alice_def)
  from short cons reg opn
  have among: "''A'' \<in> {k \<in> set (members ''r1'' (three_clients bob)). is_open (three_clients bob) k}"
    by (simp add: alice_def)
  from wf cons reg opn too_long fits among show ?thesis by blast
qed

section \<open>Signaling\<close>










section \<open>Disconnecting\<close>

lemma users_loop_cong:
  "clients s = clients s' \<Longrightarrow> users_loop ks s = users_loop ks s'"
  by (induction ks) (simp_all split: option.splits)

lemma getRoomUsers_cong:
  "clients s = clients s' \<Longrightarrow> rooms s = rooms s' \<Longrightarrow> getRoomUsers rm s = getRoomUsers rm s'"
  by (simp add: getRoomUsers_def users_loop_cong [of s s'] split: option.splits)

lemma is_open_cong: "clients s = clients s' \<Longrightarrow> is_open s k = is_open s' k"
  by (simp add: is_open_def)

lemma members_cong: "rooms s = rooms s' \<Longrightarrow> members rm s = members rm s'"
  by (simp add: members_def)

lemma well_formed_cong:
  "clients s = clients s' \<Longrightarrow> rooms s = rooms s' \<Longrightarrow> well_formed s = well_formed s'"
  by (simp add: well_formed_def)

lemma users_loop_ids:
  "\<forall>k \<in> set ks. \<exists>c. clients s k = Some c \<and> userId c = k \<Longrightarrow>
   map u_userId (users_loop ks s) = ks"
  by (induction ks) (auto split: option.splits)

text \<open>The disconnect of a registered connection is the three removals followed by the
  broadcast; \<open>s3\<close> is the state between them.\<close>

lemma handleClientDisconnect_steps:
  assumes "clients s k = Some c"
  obtains s3 where
    "handleClientDisconnect k now s =
       broadcastToRoom (room c) None
         (UserLeft k (name c) (IsoString now) (getRoomUsers (room c) s3)) s3"
    "clients s3 = clients (handleClientDisconnect k now s)"
    "rooms s3 = rooms (handleClientDisconnect k now s)"
    "sent s3 = sent s"
proof -
  define rooms' where "rooms' =
    (case rooms s (room c) of
       None \<Rightarrow> rooms s
     | Some roomObj \<Rightarrow>
         if set_delete k (r_clients roomObj) = [] then (rooms s)(room c := None)
         else (rooms s)(room c \<mapsto> roomObj\<lparr>r_clients := set_delete k (r_clients roomObj)\<rparr>))"
  define s3 where "s3 = s\<lparr>rooms := rooms', clients := (clients s)(k := None),
      clientRooms := (clientRooms s)(k := None)\<rparr>"
  have f1: "handleClientDisconnect k now s =
       broadcastToRoom (room c) None
         (UserLeft k (name c) (IsoString now) (getRoomUsers (room c) s3)) s3"
  proof (cases "rooms s (room c)")
    case None
    then have "s3 = s\<lparr>clients := (clients s)(k := None), clientRooms := (clientRooms s)(k := None)\<rparr>"
      by (simp add: s3_def rooms'_def)
    with assms None show ?thesis by (simp add: handleClientDisconnect_def Let_def)
  next
    case (Some roomObj)
    show ?thesis
    proof (cases "set_delete k (r_clients roomObj) = []")
      case True
      with Some have "s3 = s\<lparr>rooms := (rooms s)(room c := None), clients := (clients s)(k := None),
          clientRooms := (clientRooms s)(k := None)\<rparr>"
        by (simp add: s3_def rooms'_def)
      with assms Some True show ?thesis by (simp add: handleClientDisconnect_def Let_def)
    next
      case False
      with Some have "s3 = s\<lparr>rooms := (rooms s)(room c \<mapsto>
            roomObj\<lparr>r_clients := set_delete k (r_clients roomObj)\<rparr>),
          clients := (clients s)(k := None), clientRooms := (clientRooms s)(k := None)\<rparr>"
        by (simp add: s3_def rooms'_def)
      with assms Some False show ?thesis by (simp add: handleClientDisconnect_def Let_def)
    qed
  qed
  have f4: "sent s3 = sent s" by (simp add: s3_def)
  have f2: "clients s3 = clients (handleClientDisconnect k now s)"
    by (simp add: s3_def clients_handleClientDisconnect)
  have "rooms s3 rm = rooms (handleClientDisconnect k now s) rm" for rm
    using assms by (simp add: s3_def rooms'_def rooms_handleClientDisconnect split: option.splits)
  then have f3: "rooms s3 = rooms (handleClientDisconnect k now s)" by (rule ext)
  from f1 f2 f3 f4 show ?thesis by (rule that)
qed

lemma sent_handleClientDisconnect:
  assumes "well_formed s" "clients s k = Some c"
  shows "\<exists>ks. sent (handleClientDisconnect k now s) = sent s @
       map (\<lambda>r. (r, UserLeft k (name c) (IsoString now)
         (getRoomUsers (room c) (handleClientDisconnect k now s)))) ks \<and>
     distinct ks \<and>
     set ks = {r \<in> set (members (room c) (handleClientDisconnect k now s)).
       is_open (handleClientDisconnect k now s) r}"
proof -
  let ?after = "handleClientDisconnect k now s"
  from assms(2) obtain s3 where s3:
    "?after = broadcastToRoom (room c) None
         (UserLeft k (name c) (IsoString now) (getRoomUsers (room c) s3)) s3"
    "clients s3 = clients ?after" "rooms s3 = rooms ?after" "sent s3 = sent s"
    by (rule handleClientDisconnect_steps)
  have "well_formed ?after" using assms(1) by (rule well_formed_handleClientDisconnect)
  then have wf3: "well_formed s3" using well_formed_cong [OF s3(2) s3(3)] by blast
  have users: "getRoomUsers (room c) s3 = getRoomUsers (room c) ?after"
    using s3(2,3) by (rule getRoomUsers_cong)
  from broadcastToRoom_recipients [OF wf3, of "room c" None
      "UserLeft k (name c) (IsoString now) (getRoomUsers (room c) s3)"]
  obtain ks where ks: "broadcastToRoom (room c) None
        (UserLeft k (name c) (IsoString now) (getRoomUsers (room c) s3)) s3 =
        s3\<lparr>sent := sent s3 @ map (\<lambda>r. (r, UserLeft k (name c) (IsoString now)
          (getRoomUsers (room c) s3))) ks\<rparr>"
      "distinct ks"
      "set ks = {r \<in> set (members (room c) s3). Some r \<noteq> None \<and> is_open s3 r}"
    by blast
  have "sent ?after = sent (broadcastToRoom (room c) None
        (UserLeft k (name c) (IsoString now) (getRoomUsers (room c) s3)) s3)"
    using s3(1) by (rule arg_cong)
  also have "\<dots> = sent s3 @ map (\<lambda>r. (r, UserLeft k (name c) (IsoString now)
          (getRoomUsers (room c) s3))) ks"
    by (simp only: ks(1)) simp
  also have "\<dots> = sent s @ map (\<lambda>r. (r, UserLeft k (name c) (IsoString now)
          (getRoomUsers (room c) ?after))) ks"
    by (simp only: s3(4) users)
  finally have "sent ?after = sent s @
       map (\<lambda>r. (r, UserLeft k (name c) (IsoString now) (getRoomUsers (room c) ?after))) ks" .
  moreover have "set ks = {r \<in> set (members (room c) ?after). is_open ?after r}"
    using ks(3) members_cong [OF s3(3)] is_open_cong [OF s3(2)] by auto
  ultimately show ?thesis using ks(2) by blast
qed

lemma users_handleClientDisconnect:
  assumes "well_formed s" "consistent s" "clients s k = Some c"
  shows "map u_userId (getRoomUsers (room c) (handleClientDisconnect k now s)) =
     removeAll k (members (room c) s)"
proof -
  let ?after = "handleClientDisconnect k now s"
  have wf: "well_formed ?after" using assms(1) by (rule well_formed_handleClientDisconnect)
  have cons: "consistent ?after" using assms(2) by (rule consistent_handleClientDisconnect)
  have "\<forall>r \<in> set (members (room c) ?after). \<exists>c'. clients ?after r = Some c' \<and> userId c' = r"
    using wf cons unfolding consistent_def well_formed_def by blast
  then have "map u_userId (users_loop (members (room c) ?after) ?after) = members (room c) ?after"
    by (rule users_loop_ids)
  moreover have "getRoomUsers (room c) ?after = users_loop (members (room c) ?after) ?after"
    by (simp add: getRoomUsers_def members_def split: option.splits)
  ultimately show ?thesis
    using assms(3) by (simp add: members_handleClientDisconnect set_delete_def)
qed

lemma handleClientDisconnect_twice:
  "handleClientDisconnect k now' (handleClientDisconnect k now s) = handleClientDisconnect k now s"
  by (rule handleClientDisconnect_absent) (simp add: clients_handleClientDisconnect)

text \<open>
  C6, as the code has it. The disconnect of a registered connection removes its id from
  the member set of its room, removes its entry from the registry (and from
  \<^verbatim>\<open>clientRooms\<close>), and then sends one \<^verbatim>\<open>user-left\<close> frame, whose user list is read after
  the two removals, to every remaining member of the room whose socket is open, once
  each; with a consistent registry that list names exactly the remaining members. A
  disconnect of an id without a registry entry, such as a second disconnect of the same
  id, changes nothing and sends nothing.
\<close>

theorem disconnect_effects:
  "(well_formed s \<and> clients s clientId = Some c \<longrightarrow>
      clients (handleClientDisconnect clientId now s) = (clients s)(clientId := None) \<and>
      clientRooms (handleClientDisconnect clientId now s) = (clientRooms s)(clientId := None) \<and>
      rateLimits (handleClientDisconnect clientId now s) = rateLimits s \<and>
      members rm (handleClientDisconnect clientId now s) =
        (if rm = room c then removeAll clientId (members rm s) else members rm s) \<and>
      (\<exists>ks. sent (handleClientDisconnect clientId now s) = sent s @
          map (\<lambda>k. (k, UserLeft clientId (name c) (IsoString now)
            (getRoomUsers (room c) (handleClientDisconnect clientId now s)))) ks \<and>
        distinct ks \<and>
        set ks = {k \<in> set (members (room c) (handleClientDisconnect clientId now s)).
          is_open (handleClientDisconnect clientId now s) k})) \<and>
   (well_formed s \<and> consistent s \<and> clients s clientId = Some c \<longrightarrow>
      map u_userId (getRoomUsers (room c) (handleClientDisconnect clientId now s)) =
        removeAll clientId (members (room c) s)) \<and>
   (clients s clientId = None \<longrightarrow> handleClientDisconnect clientId now s = s) \<and>
   handleClientDisconnect clientId now' (handleClientDisconnect clientId now s) =
     handleClientDisconnect clientId now s"
proof (intro conjI impI)
  assume a: "well_formed s \<and> clients s clientId = Some c"
  show "clients (handleClientDisconnect clientId now s) = (clients s)(clientId := None)"
    by (rule clients_handleClientDisconnect)
  from a show "clientRooms (handleClientDisconnect clientId now s) = (clientRooms s)(clientId := None)"
    by (simp add: clientRooms_handleClientDisconnect)
  show "rateLimits (handleClientDisconnect clientId now s) = rateLimits s" by simp
  from a show "members rm (handleClientDisconnect clientId now s) =
      (if rm = room c then removeAll clientId (members rm s) else members rm s)"
    by (simp add: members_handleClientDisconnect set_delete_def)
  from a show "\<exists>ks. sent (handleClientDisconnect clientId now s) = sent s @
          map (\<lambda>k. (k, UserLeft clientId (name c) (IsoString now)
            (getRoomUsers (room c) (handleClientDisconnect clientId now s)))) ks \<and>
        distinct ks \<and>
        set ks = {k \<in> set (members (room c) (handleClientDisconnect clientId now s)).
          is_open (handleClientDisconnect clientId now s) k}"
    using sent_handleClientDisconnect by blast
next
  assume "well_formed s \<and> consistent s \<and> clients s clientId = Some c"
  then show "map u_userId (getRoomUsers (room c) (handleClientDisconnect clientId now s)) =
      removeAll clientId (members (room c) s)"
    using users_handleClientDisconnect by blast
next
  assume "clients s clientId = None"
  then show "handleClientDisconnect clientId now s = s"
    by (rule handleClientDisconnect_absent)
next
  show "handleClientDisconnect clientId now' (handleClientDisconnect clientId now s) =
     handleClientDisconnect clientId now s"
    by (rule handleClientDisconnect_twice)
qed

text \<open>
  The claim as stated fails where a remaining member has no open socket. Bob has joined
  Alice's room and his socket is still connecting when Alice disconnects: Bob remains
  the only member of the room and is sent no \<^verbatim>\<open>user-left\<close> frame.
\<close>

theorem disconnect_counterexample:
  "well_formed bob_not_open_yet \<and> consistent bob_not_open_yet \<and>
   members ''r1'' bob_not_open_yet = [''A'', ''B''] \<and>
   members ''r1'' (handleClientDisconnect ''A'' 7 bob_not_open_yet) = [''B''] \<and>
   sent (handleClientDisconnect ''A'' 7 bob_not_open_yet) = sent bob_not_open_yet"
  by (simp add: members_bob_not_open_yet well_formed_bob_not_open_yet consistent_bob_not_open_yet)
    (simp add: bob_not_open_yet_eq handleClientDisconnect_def Let_def set_delete_def
      broadcastToRoom_def getRoomUsers_def members_def alice_joining_def)

lemma example_disconnect_sent:
  "sent (handleClientDisconnect ''A'' 9 (three_clients bob)) =
     [(''B'', UserLeft ''A'' ''Alice'' (IsoString 9)
        [\<lparr>u_userId = ''B'', u_name = ''Bob'', u_role = ''player'', u_joinedAt = 1\<rparr>])]"
  by (simp add: three_clients_def handleClientDisconnect_def Let_def set_delete_def
      broadcastToRoom_def getRoomUsers_def alice_def bob_def socket_send_def)

theorem disconnect_effects_witness:
  "well_formed (three_clients bob) \<and> consistent (three_clients bob) \<and>
   clients (three_clients bob) ''A'' = Some alice \<and>
   clients (handleClientDisconnect ''A'' 9 (three_clients bob)) ''A'' = None \<and>
   members ''r1'' (handleClientDisconnect ''A'' 9 (three_clients bob)) = [''B''] \<and>
   members ''r2'' (handleClientDisconnect ''A'' 9 (three_clients bob)) = [''C''] \<and>
   (\<exists>ks. sent (handleClientDisconnect ''A'' 9 (three_clients bob)) =
       map (\<lambda>k. (k, UserLeft ''A'' ''Alice'' (IsoString 9)
         (getRoomUsers ''r1'' (handleClientDisconnect ''A'' 9 (three_clients bob))))) ks \<and>
     distinct ks \<and> set ks = {''B''}) \<and>
   map u_userId (getRoomUsers ''r1'' (handleClientDisconnect ''A'' 9 (three_clients bob))) = [''B''] \<and>
   sent (handleClientDisconnect ''A'' 9 (three_clients bob)) =
     [(''B'', UserLeft ''A'' ''Alice'' (IsoString 9)
        [\<lparr>u_userId = ''B'', u_name = ''Bob'', u_role = ''player'', u_joinedAt = 1\<rparr>])] \<and>
   handleClientDisconnect ''A'' 10 (handleClientDisconnect ''A'' 9 (three_clients bob)) =
     handleClientDisconnect ''A'' 9 (three_clients bob) \<and>
   clients (three_clients bob) ''D'' = None \<and>
   handleClientDisconnect ''D'' 9 (three_clients bob) = three_clients bob"
proof -
  let ?s = "three_clients bob"
  let ?after = "handleClientDisconnect ''A'' 9 ?s"
  have wf: "well_formed ?s" by (rule well_formed_three_clients)
  have cons: "consistent ?s" by (rule consistent_three_clients)
  have reg: "clients ?s ''A'' = Some alice" by (rule three_clients_fields)
  have absent: "clients ?s ''D'' = None" by (simp add: three_clients_def)
  have rm: "room alice = ''r1''" "name alice = ''Alice''" by (simp_all add: alice_def)
  note r1 = disconnect_effects [where s = ?s and clientId = "''A''" and c = alice and now = 9
      and now' = 10 and rm = "''r1''"]
  note r2 = disconnect_effects [where s = ?s and clientId = "''A''" and c = alice and now = 9
      and rm = "''r2''"]
  note d = disconnect_effects [where s = ?s and clientId = "''D''" and now = 9]
  from r1 wf reg have gone: "clients ?after = (clients ?s)(''A'' := None)" by blast
  then have gone': "clients ?after ''A'' = None" by simp
  from r1 wf reg rm have m1: "members ''r1'' ?after = [''B'']"
    by (simp add: three_clients_fields(4))
  from r2 wf reg rm have m2: "members ''r2'' ?after = [''C'']"
    by (simp add: three_clients_fields(5))
  have "clients ?after ''B'' = Some bob"
    by (simp add: gone three_clients_fields)
  then have "is_open ?after ''B''"
    by (simp add: is_open_def) (simp add: bob_def)
  with m1 have recipients: "{k \<in> set (members ''r1'' ?after). is_open ?after k} = {''B''}"
    by auto
  from r1 wf reg obtain ks where
    "sent ?after = sent ?s @ map (\<lambda>k. (k, UserLeft ''A'' (name alice) (IsoString 9)
        (getRoomUsers (room alice) ?after))) ks"
    "distinct ks"
    "set ks = {k \<in> set (members (room alice) ?after). is_open ?after k}"
    by blast
  with rm recipients have notified: "\<exists>ks. sent ?after =
       map (\<lambda>k. (k, UserLeft ''A'' ''Alice'' (IsoString 9) (getRoomUsers ''r1'' ?after))) ks \<and>
     distinct ks \<and> set ks = {''B''}"
    by (simp add: three_clients_fields(6)) blast
  from r1 wf cons reg rm have users: "map u_userId (getRoomUsers ''r1'' ?after) = [''B'']"
    by (simp add: three_clients_fields(4))
  from r1 have twice: "handleClientDisconnect ''A'' 10 ?after = ?after" by blast
  from d absent have noop: "handleClientDisconnect ''D'' 9 ?s = ?s" by blast
  from wf cons reg gone' m1 m2 notified users example_disconnect_sent twice absent noop
  show ?thesis by blast
qed

end
